theory Spec2Isabelle
  imports Complex_Main "HOL-Library.Word"
begin

section \<open>Data model (internal/models)\<close>

text \<open>
  Bytes are 8-bit words and Go strings are character lists. A Go \<open>error\<close> is modelled by
  its message. \<open>int\<close> and \<open>int64\<close> values are unbounded integers here: every one of
  them is a length, a count or an index of data held in memory, far below \<open>2 ^ 63\<close>.
  The three structs of the package share field names in Go; the fields of \<open>File\<close> and
  \<open>Chunk\<close> carry the first letter of their struct as a prefix.
\<close>

type_synonym byte = "8 word"
type_synonym error = string

record File =
  fID :: string
  fName :: string
  fSize :: int
  fChunkCount :: int
  fCreatedAt :: nat

record Chunk =
  cID :: string
  cFileID :: string
  cOrderIndex :: int
  cHash :: string
  cMinioObjectKey :: string
  cSize :: int

record ChunkData =
  Data :: "byte list"
  OrderIndex :: int
  Hash :: string
  Size :: int

text \<open>
  A call of a Go function either returns or panics; a call that does neither (it loops for
  ever) is the value \<open>None\<close> of the enclosing option type.
\<close>

datatype 'a go = Panics string | Returns 'a

section \<open>Library functions the code calls\<close>

text \<open>
  \<open>fmt.Sprintf("%d", n)\<close>: the decimal digits of \<open>n\<close>, most significant first, with a
  leading minus sign for a negative number.
\<close>

fun decimal :: "nat \<Rightarrow> string" where
  "decimal n = (if n < 10 then [''0123456789'' ! n]
                else decimal (n div 10) @ [''0123456789'' ! (n mod 10)])"

declare decimal.simps [simp del]

definition Sprintf_d :: "int \<Rightarrow> string" where
  "Sprintf_d i = (if i < 0 then CHR ''-'' # decimal (nat (- i)) else decimal (nat i))"

text \<open>\<open>hex.EncodeToString\<close>: two lower-case hexadecimal digits per byte, high nibble first.\<close>

definition hextable :: string where
  "hextable = ''0123456789abcdef''"

definition EncodeToString :: "byte list \<Rightarrow> string" where
  "EncodeToString src =
     concat (map (\<lambda>v. [hextable ! (unat v div 16), hextable ! (unat v mod 16)]) src)"

text \<open>
  The errors of package \<open>io\<close> the code tests for, and any other error, by its message.
\<close>

datatype io_error = EOF | ErrUnexpectedEOF | OtherErr error

fun Error :: "io_error \<Rightarrow> string" where
  "Error EOF = ''EOF''"
| "Error ErrUnexpectedEOF = ''unexpected EOF''"
| "Error (OtherErr msg) = msg"

text \<open>
  An \<open>io.Reader\<close> over a finite stream: the bytes still to be delivered and the error its
  \<open>Read\<close> returns once they are delivered. That is \<open>io.EOF\<close> for a stream that ends; it
  is \<open>io.ErrUnexpectedEOF\<close> for a request body that is shorter than its declared length,
  and any other error for a stream that breaks.
\<close>

datatype reader = Reader (pending: "byte list") (ending: io_error)

text \<open>
  \<open>io.ReadFull(reader, buffer)\<close> with a buffer of \<open>n\<close> bytes: the bytes read, the error
  (\<open>None\<close> is nil) and the reader afterwards. It fills the buffer when the stream has
  \<open>n\<close> bytes left, and then returns no error (for \<open>n = 0\<close> it returns at once, with
  nothing read). Otherwise it delivers what is left and returns the reader's error, with
  \<open>io.EOF\<close> turned into \<open>io.ErrUnexpectedEOF\<close> when some bytes were read.
\<close>

definition ReadFull :: "reader \<Rightarrow> nat \<Rightarrow> byte list \<times> io_error option \<times> reader" where
  "ReadFull r n =
     (if n \<le> length (pending r)
      then (take n (pending r), None, Reader (drop n (pending r)) (ending r))
      else (pending r,
            Some (if pending r \<noteq> [] \<and> ending r = EOF then ErrUnexpectedEOF else ending r),
            Reader [] (ending r)))"

section \<open>The chunker (internal/chunker)\<close>

text \<open>
  \<open>ComputeHash\<close>: the hexadecimal form of the SHA-256 digest. The digest function of
  \<open>crypto/sha256\<close> is a parameter of the model.
\<close>

definition ComputeHash :: "(byte list \<Rightarrow> byte list) \<Rightarrow> byte list \<Rightarrow> string" where
  "ComputeHash sha256 data = EncodeToString (sha256 data)"

text \<open>
  The \<open>for\<close> loop of \<open>ChunkStream\<close>, with its local variables as arguments. Every
  iteration allocates the buffer: \<open>make([]byte, c.chunkSize)\<close> panics when the length is
  negative or above the allocation limit of the Go runtime, \<open>maxAlloc\<close> (a constant of the
  platform, \<open>2 ^ 48\<close> bytes on 64-bit Linux), which is a parameter here; the machine is
  taken to have the memory for a buffer within that limit. The loop has no bound of its
  own, so it is a partial function: \<open>None\<close> is the loop that never leaves.
\<close>

partial_function (option) ChunkStream_loop ::
  "(byte list \<Rightarrow> byte list) \<Rightarrow> int \<Rightarrow> int \<Rightarrow> reader \<Rightarrow> ChunkData list \<Rightarrow> int \<Rightarrow> int
     \<Rightarrow> (error + ChunkData list \<times> int) go option" where
  "ChunkStream_loop sha256 maxAlloc chunkSize rd chunks totalSize orderIndex =
     (if chunkSize < 0 \<or> maxAlloc < chunkSize
      then Some (Panics ''runtime error: makeslice: len out of range'')
      else
        case ReadFull rd (nat chunkSize) of (chunkData, err, rd') \<Rightarrow>
          let n = length chunkData;
              chunks' = (if n > 0
                         then chunks @ [\<lparr>Data = chunkData, OrderIndex = orderIndex,
                                         Hash = ComputeHash sha256 chunkData, Size = int n\<rparr>]
                         else chunks);
              totalSize' = (if n > 0 then totalSize + int n else totalSize);
              orderIndex' = (if n > 0 then orderIndex + 1 else orderIndex)
          in if err = Some EOF \<or> err = Some ErrUnexpectedEOF
             then Some (Returns (Inr (chunks', totalSize')))
             else (case err of
                     Some e \<Rightarrow> Some (Returns (Inl (''error reading chunk: '' @ Error e)))
                   | None \<Rightarrow>
                       ChunkStream_loop sha256 maxAlloc chunkSize rd' chunks' totalSize'
                         orderIndex'))"

declare ChunkStream_loop.simps [code]

text \<open>\<open>ChunkStream\<close>: the loop, from no chunks, a total size of 0 and order index 0.\<close>

definition ChunkStream ::
  "(byte list \<Rightarrow> byte list) \<Rightarrow> int \<Rightarrow> int \<Rightarrow> reader
     \<Rightarrow> (error + ChunkData list \<times> int) go option" where
  "ChunkStream sha256 maxAlloc chunkSize rd =
     ChunkStream_loop sha256 maxAlloc chunkSize rd [] 0 0"

text \<open>\<open>ReassembleChunks\<close>: the chunks appended to an empty buffer, in slice order.\<close>

definition ReassembleChunks :: "byte list list \<Rightarrow> byte list" where
  "ReassembleChunks chunks = foldl (\<lambda>result chunk. result @ chunk) [] chunks"

definition VerifyChunkHash :: "(byte list \<Rightarrow> byte list) \<Rightarrow> byte list \<Rightarrow> string \<Rightarrow> bool" where
  "VerifyChunkHash sha256 data expectedHash = (ComputeHash sha256 data = expectedHash)"

section \<open>The external services (internal/storage)\<close>

text \<open>
  Redis, TiDB and MinIO are reached through client libraries. What a library call answers
  is outside the program, so the answers are a parameter: a record of reply functions, one
  per library call the code makes, as a test double would provide them. Every function
  below returns, next to its result, the list of library calls it made, in order.
\<close>

datatype redis_reply = RedisNil | RedisErr error | RedisValue string

datatype 'a sql_row = ErrNoRows | ScanErr error | Row 'a

datatype sql_rows = QueryErr error | Rows "(error + Chunk) list" "error option"

datatype minio_object = GetObjectErr error | ReadAllErr error | Object "byte list"

record services =
  redisGet :: "string \<Rightarrow> redis_reply"
  redisSet :: "string \<Rightarrow> string \<Rightarrow> nat \<Rightarrow> error option"
  redisDel :: "string \<Rightarrow> error option"
  jsonMarshal :: "File \<Rightarrow> error + string"
  jsonUnmarshal :: "string \<Rightarrow> error + File"
  sqlQueryRowFile :: "string \<Rightarrow> File sql_row"
  sqlQueryChunks :: "string \<Rightarrow> sql_rows"
  sqlExecInsertFile :: "File \<Rightarrow> error option"
  sqlExecInsertChunk :: "Chunk \<Rightarrow> error option"
  minioGetObject :: "string \<Rightarrow> minio_object"
  minioPutObject :: "string \<Rightarrow> byte list \<Rightarrow> error option"

datatype call =
    RedisGet string
  | RedisSet string string nat
  | RedisDel string
  | SqlQueryRowFile string
  | SqlQueryChunks string
  | SqlInsertFile File
  | SqlInsertChunk Chunk
  | MinioGetObject string
  | MinioPutObject string "byte list"

subsection \<open>redis.go\<close>

text \<open>\<open>CacheTTL = 5 * time.Minute\<close>, in seconds.\<close>

definition CacheTTL :: nat where
  "CacheTTL = 5 * 60"

text \<open>
  \<open>RedisClient.GetFileMetadata\<close>: \<open>redis.Nil\<close> is a miss and not an error, so the
  result is \<open>nil, nil\<close>: \<open>Inr None\<close>.
\<close>

definition GetFileMetadata :: "services \<Rightarrow> string \<Rightarrow> (error + File option) \<times> call list" where
  "GetFileMetadata sv fileID =
     (let key = ''file:'' @ fileID in
      ((case redisGet sv key of
          RedisNil \<Rightarrow> Inr None
        | RedisErr e \<Rightarrow> Inl (''failed to get from cache: '' @ e)
        | RedisValue data \<Rightarrow>
            (case jsonUnmarshal sv data of
               Inl e \<Rightarrow> Inl (''failed to unmarshal cached data: '' @ e)
             | Inr file \<Rightarrow> Inr (Some file))),
       [RedisGet key]))"

definition SetFileMetadata :: "services \<Rightarrow> string \<Rightarrow> File \<Rightarrow> error option \<times> call list" where
  "SetFileMetadata sv fileID file =
     (let key = ''file:'' @ fileID in
      case jsonMarshal sv file of
        Inl e \<Rightarrow> (Some (''failed to marshal file: '' @ e), [])
      | Inr data \<Rightarrow>
          ((case redisSet sv key data CacheTTL of
              Some e \<Rightarrow> Some (''failed to set cache: '' @ e)
            | None \<Rightarrow> None),
           [RedisSet key data CacheTTL]))"

definition InvalidateFileMetadata :: "services \<Rightarrow> string \<Rightarrow> error option \<times> call list" where
  "InvalidateFileMetadata sv fileID =
     (let key = ''file:'' @ fileID in
      ((case redisDel sv key of
          Some e \<Rightarrow> Some (''failed to invalidate cache: '' @ e)
        | None \<Rightarrow> None),
       [RedisDel key]))"

subsection \<open>tidb.go\<close>

definition CreateFile :: "services \<Rightarrow> File \<Rightarrow> error option \<times> call list" where
  "CreateFile sv file =
     ((case sqlExecInsertFile sv file of
         Some e \<Rightarrow> Some (''failed to insert file: '' @ e)
       | None \<Rightarrow> None),
      [SqlInsertFile file])"

definition CreateChunk :: "services \<Rightarrow> Chunk \<Rightarrow> error option \<times> call list" where
  "CreateChunk sv chunk =
     ((case sqlExecInsertChunk sv chunk of
         Some e \<Rightarrow> Some (''failed to insert chunk: '' @ e)
       | None \<Rightarrow> None),
      [SqlInsertChunk chunk])"

text \<open>
  \<open>TiDBClient.GetFile\<close> returns a non-nil \<open>*models.File\<close> exactly when it returns no
  error, so its result is an error or a file. A missing row (\<open>sql.ErrNoRows\<close>) is
  returned as an error.
\<close>

definition GetFile :: "services \<Rightarrow> string \<Rightarrow> (error + File) \<times> call list" where
  "GetFile sv fileID =
     ((case sqlQueryRowFile sv fileID of
         ErrNoRows \<Rightarrow> Inl (''file not found: '' @ fileID)
       | ScanErr e \<Rightarrow> Inl (''failed to query file: '' @ e)
       | Row file \<Rightarrow> Inr file),
      [SqlQueryRowFile fileID])"

text \<open>The \<open>rows.Next()\<close> loop of \<open>GetChunks\<close>: the first row that fails to scan ends it.\<close>

fun scan_rows :: "(error + Chunk) list \<Rightarrow> Chunk list \<Rightarrow> error + Chunk list" where
  "scan_rows [] chunks = Inr chunks"
| "scan_rows (Inl e # rows) chunks = Inl (''failed to scan chunk: '' @ e)"
| "scan_rows (Inr chunk # rows) chunks = scan_rows rows (chunks @ [chunk])"

definition GetChunks :: "services \<Rightarrow> string \<Rightarrow> (error + Chunk list) \<times> call list" where
  "GetChunks sv fileID =
     ((case sqlQueryChunks sv fileID of
         QueryErr e \<Rightarrow> Inl (''failed to query chunks: '' @ e)
       | Rows rows rowsErr \<Rightarrow>
           (case scan_rows rows [] of
              Inl e \<Rightarrow> Inl e
            | Inr chunks \<Rightarrow>
                (case rowsErr of
                   Some e \<Rightarrow> Inl (''error iterating chunks: '' @ e)
                 | None \<Rightarrow> Inr chunks))),
      [SqlQueryChunks fileID])"

subsection \<open>The MinIO client\<close>

definition UploadChunk :: "services \<Rightarrow> string \<Rightarrow> byte list \<Rightarrow> error option \<times> call list" where
  "UploadChunk sv objectKey data =
     ((case minioPutObject sv objectKey data of
         Some e \<Rightarrow> Some (''failed to upload chunk: '' @ e)
       | None \<Rightarrow> None),
      [MinioPutObject objectKey data])"

definition DownloadChunk :: "services \<Rightarrow> string \<Rightarrow> (error + byte list) \<times> call list" where
  "DownloadChunk sv objectKey =
     ((case minioGetObject sv objectKey of
         GetObjectErr e \<Rightarrow> Inl (''failed to get object: '' @ e)
       | ReadAllErr e \<Rightarrow> Inl (''failed to read object data: '' @ e)
       | Object data \<Rightarrow> Inr data),
      [MinioGetObject objectKey])"

section \<open>HTTP responses\<close>

record WriteResponse =
  FileID :: string
  FileName :: string
  FileSize :: int
  ChunkCount :: int
  Message :: string

datatype body = Text string | Bytes "byte list" | Json WriteResponse

text \<open>
  The status code and the body a handler writes. \<open>Text msg\<close> is the body of
  \<open>http.Error(w, msg, code)\<close>: the message, which the library ends with a newline.
  Headers are not modelled.
\<close>

datatype response = Response (status: nat) (content: body)

definition StatusOK :: nat where "StatusOK = 200"
definition StatusCreated :: nat where "StatusCreated = 201"
definition StatusBadRequest :: nat where "StatusBadRequest = 400"
definition StatusNotFound :: nat where "StatusNotFound = 404"
definition StatusInternalServerError :: nat where "StatusInternalServerError = 500"

section \<open>The read handler\<close>

definition getFileMetadata :: "services \<Rightarrow> string \<Rightarrow> (error + File option) \<times> call list" where
  "getFileMetadata sv fileID =
     (case GetFileMetadata sv fileID of
        (Inl err, t1) \<Rightarrow> (Inl err, t1)
      | (Inr (Some file), t1) \<Rightarrow> (Inr (Some file), t1)
      | (Inr None, t1) \<Rightarrow>
          (case GetFile sv fileID of
             (Inl err, t2) \<Rightarrow> (Inl err, t1 @ t2)
           | (Inr file, t2) \<Rightarrow>
               (case SetFileMetadata sv fileID file of
                  (_, t3) \<Rightarrow> (Inr (Some file), t1 @ t2 @ t3))))"

definition getChunkMetadata :: "services \<Rightarrow> string \<Rightarrow> (error + Chunk list) \<times> call list" where
  "getChunkMetadata sv fileID = GetChunks sv fileID"

text \<open>
  One goroutine of \<open>fetchChunksParallel\<close>, for the chunk at index \<open>idx\<close>: it downloads and
  verifies the chunk, and either sends an error to \<open>errChan\<close> or stores the data in
  \<open>chunkData[idx]\<close>. The state is the slice \<open>chunkData\<close> (\<open>None\<close> is a nil entry), the
  contents of \<open>errChan\<close> and the calls made so far.
\<close>

type_synonym fetch_state = "byte list option list \<times> error list \<times> call list"

definition fetchUnit ::
  "(byte list \<Rightarrow> byte list) \<Rightarrow> services \<Rightarrow> fetch_state \<Rightarrow> nat \<Rightarrow> Chunk \<Rightarrow> fetch_state" where
  "fetchUnit sha256 sv st idx chunkMeta =
     (case st of (chunkData, errChan, trace) \<Rightarrow>
        (case DownloadChunk sv (cMinioObjectKey chunkMeta) of
           (Inl err, t) \<Rightarrow>
             (chunkData,
              errChan @ [''failed to download chunk '' @ Sprintf_d (int idx) @ '': '' @ err],
              trace @ t)
         | (Inr data, t) \<Rightarrow>
             if \<not> VerifyChunkHash sha256 data (cHash chunkMeta)
             then (chunkData,
                   errChan @ [''hash mismatch for chunk '' @ Sprintf_d (int idx)],
                   trace @ t)
             else (chunkData[idx := Some data], errChan, trace @ t)))"

text \<open>
  The goroutines run concurrently. Each one touches only its own slot and appends to the
  channel, so a run is determined by the order in which the goroutines complete: \<open>sched\<close>
  lists the indices \<open>0 ..< len(chunkMetadata)\<close> in completion order. The runs of the
  program are the lists that satisfy \<open>is_schedule\<close>; every statement about a run
  assumes it.
\<close>

definition is_schedule :: "nat list \<Rightarrow> nat \<Rightarrow> bool" where
  "is_schedule sched n = (distinct sched \<and> set sched = {0..<n})"

definition fetchUnits ::
  "(byte list \<Rightarrow> byte list) \<Rightarrow> services \<Rightarrow> nat list \<Rightarrow> Chunk list \<Rightarrow> fetch_state" where
  "fetchUnits sha256 sv sched chunkMetadata =
     foldl (\<lambda>st idx. fetchUnit sha256 sv st idx (chunkMetadata ! idx))
       (replicate (length chunkMetadata) None, [], []) sched"

text \<open>After \<open>wg.Wait()\<close>: the first error in the channel, or the filled slice.\<close>

definition fetchChunksParallel ::
  "(byte list \<Rightarrow> byte list) \<Rightarrow> services \<Rightarrow> nat list \<Rightarrow> Chunk list
     \<Rightarrow> (error + byte list option list) \<times> call list" where
  "fetchChunksParallel sha256 sv sched chunkMetadata =
     (case fetchUnits sha256 sv sched chunkMetadata of
        (chunkData, errChan, trace) \<Rightarrow>
          if length errChan > 0 then (Inl (hd errChan), trace) else (Inr chunkData, trace))"

text \<open>A nil entry of a \<open>[][]byte\<close> is a slice of length 0.\<close>

definition slot_bytes :: "byte list option \<Rightarrow> byte list" where
  "slot_bytes slot = (case slot of None \<Rightarrow> [] | Some data \<Rightarrow> data)"

definition reassembleFile :: "byte list option list \<Rightarrow> byte list" where
  "reassembleFile chunkData = ReassembleChunks (map slot_bytes chunkData)"

text \<open>\<open>ReadHandler.ServeHTTP\<close>, for the \<open>file_id\<close> of the request path.\<close>

definition ServeHTTP_read ::
  "(byte list \<Rightarrow> byte list) \<Rightarrow> services \<Rightarrow> nat list \<Rightarrow> string \<Rightarrow> response \<times> call list" where
  "ServeHTTP_read sha256 sv sched fileID =
     (if fileID = [] then (Response StatusBadRequest (Text ''missing file_id in path''), [])
      else
        case getFileMetadata sv fileID of
          (Inl err, t1) \<Rightarrow>
            (Response StatusInternalServerError
               (Text (''failed to get file metadata: '' @ err)), t1)
        | (Inr None, t1) \<Rightarrow> (Response StatusNotFound (Text ''file not found''), t1)
        | (Inr (Some file), t1) \<Rightarrow>
            (case getChunkMetadata sv fileID of
               (Inl err, t2) \<Rightarrow>
                 (Response StatusInternalServerError
                    (Text (''failed to get chunks: '' @ err)), t1 @ t2)
             | (Inr chunks, t2) \<Rightarrow>
                 (case fetchChunksParallel sha256 sv sched chunks of
                    (Inl err, t3) \<Rightarrow>
                      (Response StatusInternalServerError
                         (Text (''failed to fetch chunks: '' @ err)), t1 @ t2 @ t3)
                  | (Inr chunkData, t3) \<Rightarrow>
                      (Response StatusOK (Bytes (reassembleFile chunkData)),
                       t1 @ t2 @ t3))))"

section \<open>The write handler\<close>

text \<open>
  \<open>uuid.New().String()\<close> is random; \<open>uuid k\<close> is the identifier the \<open>k\<close>-th call of a
  request returns. The loop of \<open>uploadChunks\<close> stops at the first upload that fails.
\<close>

fun uploadChunks_loop ::
  "services \<Rightarrow> (nat \<Rightarrow> string) \<Rightarrow> nat \<Rightarrow> string \<Rightarrow> ChunkData list \<Rightarrow> Chunk list
     \<Rightarrow> (error + Chunk list) \<times> call list" where
  "uploadChunks_loop sv uuid k fileID [] chunkModels = (Inr chunkModels, [])"
| "uploadChunks_loop sv uuid k fileID (chunkData # rest) chunkModels =
     (let chunkID = uuid k;
          objectKey = ''chunks/'' @ fileID @ ''/'' @ Sprintf_d (OrderIndex chunkData)
      in case UploadChunk sv objectKey (Data chunkData) of
           (Some err, t) \<Rightarrow>
             (Inl (''failed to upload chunk '' @ Sprintf_d (OrderIndex chunkData) @ '': '' @ err), t)
         | (None, t) \<Rightarrow>
             (case uploadChunks_loop sv uuid (k + 1) fileID rest
                     (chunkModels @
                        [\<lparr>cID = chunkID, cFileID = fileID, cOrderIndex = OrderIndex chunkData,
                          cHash = Hash chunkData, cMinioObjectKey = objectKey,
                          cSize = Size chunkData\<rparr>]) of
                (res, t') \<Rightarrow> (res, t @ t')))"

definition uploadChunks ::
  "services \<Rightarrow> (nat \<Rightarrow> string) \<Rightarrow> nat \<Rightarrow> string \<Rightarrow> ChunkData list
     \<Rightarrow> (error + Chunk list) \<times> call list" where
  "uploadChunks sv uuid k fileID chunks = uploadChunks_loop sv uuid k fileID chunks []"

fun createChunks :: "services \<Rightarrow> Chunk list \<Rightarrow> error option \<times> call list" where
  "createChunks sv [] = (None, [])"
| "createChunks sv (chunk # chunks) =
     (case CreateChunk sv chunk of
        (Some err, t) \<Rightarrow> (Some (''failed to create chunk record: '' @ err), t)
      | (None, t) \<Rightarrow> (case createChunks sv chunks of (res, t') \<Rightarrow> (res, t @ t')))"

definition saveMetadata :: "services \<Rightarrow> File \<Rightarrow> Chunk list \<Rightarrow> error option \<times> call list" where
  "saveMetadata sv file chunks =
     (case CreateFile sv file of
        (Some err, t) \<Rightarrow> (Some (''failed to create file record: '' @ err), t)
      | (None, t) \<Rightarrow> (case createChunks sv chunks of (res, t') \<Rightarrow> (res, t @ t')))"

definition invalidateCache :: "services \<Rightarrow> string \<Rightarrow> error option \<times> call list" where
  "invalidateCache sv fileID = InvalidateFileMetadata sv fileID"

text \<open>
  \<open>WriteHandler.ServeHTTP\<close>, for the \<open>name\<close> query parameter and the request body;
  \<open>now\<close> is the value of \<open>time.Now()\<close>. The first identifier drawn is the file's.
\<close>

definition ServeHTTP_write ::
  "(byte list \<Rightarrow> byte list) \<Rightarrow> int \<Rightarrow> int \<Rightarrow> services \<Rightarrow> (nat \<Rightarrow> string) \<Rightarrow> nat \<Rightarrow> string
     \<Rightarrow> reader \<Rightarrow> (response \<times> call list) go option" where
  "ServeHTTP_write sha256 maxAlloc chunkSize sv uuid now filename body =
     (if filename = []
      then Some (Returns (Response StatusBadRequest (Text ''missing 'name' query parameter''), []))
      else
        let fileID = uuid 0 in
        case ChunkStream sha256 maxAlloc chunkSize body of
          None \<Rightarrow> None
        | Some (Panics msg) \<Rightarrow> Some (Panics msg)
        | Some (Returns (Inl err)) \<Rightarrow>
            Some (Returns (Response StatusInternalServerError
                             (Text (''failed to chunk file: '' @ err)), []))
        | Some (Returns (Inr (chunks, totalSize))) \<Rightarrow>
            Some (Returns
              (case uploadChunks sv uuid 1 fileID chunks of
                 (Inl err, t1) \<Rightarrow>
                   (Response StatusInternalServerError
                      (Text (''failed to upload chunks: '' @ err)), t1)
               | (Inr chunkModels, t1) \<Rightarrow>
                   (let file = \<lparr>fID = fileID, fName = filename, fSize = totalSize,
                                fChunkCount = int (length chunks), fCreatedAt = now\<rparr>
                    in case saveMetadata sv file chunkModels of
                         (Some err, t2) \<Rightarrow>
                           (Response StatusInternalServerError
                              (Text (''failed to save metadata: '' @ err)), t1 @ t2)
                       | (None, t2) \<Rightarrow>
                           (case invalidateCache sv fileID of
                              (_, t3) \<Rightarrow>
                                (Response StatusCreated
                                   (Json \<lparr>FileID = fileID, FileName = filename,
                                          FileSize = totalSize,
                                          ChunkCount = int (length chunks),
                                          Message = ''File uploaded successfully''\<rparr>),
                                 t1 @ t2 @ t3))))))"

section \<open>Configuration (internal/config)\<close>

text \<open>
  \<open>Config.GetChunkSizeBytes\<close>: \<open>int64(c.ChunkSizeMB) * 1024 * 1024\<close>, in 64-bit
  arithmetic. Of the configuration only the chunk size is modelled; \<open>main\<close> hands the
  result to \<open>NewChunker\<close>.
\<close>

record Config =
  ChunkSizeMB :: "64 word"

definition GetChunkSizeBytes :: "Config \<Rightarrow> int" where
  "GetChunkSizeBytes c = sint (ChunkSizeMB c * 1024 * 1024)"

section \<open>Notions used in the statements\<close>

text \<open>
  The slices of a byte sequence of \<open>n\<close> bytes each, the last one holding what is left,
  and the chunk records built from a list of slices, numbered from \<open>i\<close>. The loop of
  \<open>ChunkStream\<close> is shown to compute exactly these.
\<close>

fun slices :: "nat \<Rightarrow> 'a list \<Rightarrow> 'a list list" where
  "slices n xs = (if n = 0 \<or> xs = [] then [] else take n xs # slices n (drop n xs))"

declare slices.simps [simp del]

fun number_chunks :: "(byte list \<Rightarrow> byte list) \<Rightarrow> int \<Rightarrow> byte list list \<Rightarrow> ChunkData list" where
  "number_chunks sha256 i [] = []"
| "number_chunks sha256 i (d # ds) =
     \<lparr>Data = d, OrderIndex = i, Hash = ComputeHash sha256 d, Size = int (length d)\<rparr>
       # number_chunks sha256 (i + 1) ds"

text \<open>
  What the goroutine for a chunk leaves in its slot: the downloaded bytes when the download
  succeeds and the hash matches, and nothing (the slot stays nil) when the unit fails.
\<close>

definition unit_slot :: "(byte list \<Rightarrow> byte list) \<Rightarrow> services \<Rightarrow> Chunk \<Rightarrow> byte list option" where
  "unit_slot sha256 sv chunkMeta =
     (case fst (DownloadChunk sv (cMinioObjectKey chunkMeta)) of
        Inl err \<Rightarrow> None
      | Inr data \<Rightarrow> if VerifyChunkHash sha256 data (cHash chunkMeta) then Some data else None)"

text \<open>
  A unit fails when the download fails or the digest of the downloaded bytes differs from
  the recorded hash; \<open>unit_error\<close> is the error it then sends to the channel.
\<close>

definition unit_fails :: "(byte list \<Rightarrow> byte list) \<Rightarrow> services \<Rightarrow> Chunk \<Rightarrow> bool" where
  "unit_fails sha256 sv chunkMeta =
     (case fst (DownloadChunk sv (cMinioObjectKey chunkMeta)) of
        Inl err \<Rightarrow> True
      | Inr data \<Rightarrow> \<not> VerifyChunkHash sha256 data (cHash chunkMeta))"

definition unit_error :: "services \<Rightarrow> nat \<Rightarrow> Chunk \<Rightarrow> error" where
  "unit_error sv idx chunkMeta =
     (case fst (DownloadChunk sv (cMinioObjectKey chunkMeta)) of
        Inl err \<Rightarrow> ''failed to download chunk '' @ Sprintf_d (int idx) @ '': '' @ err
      | Inr data \<Rightarrow> ''hash mismatch for chunk '' @ Sprintf_d (int idx))"

text \<open>The object key \<open>uploadChunks\<close> builds for a chunk.\<close>

definition object_key :: "string \<Rightarrow> ChunkData \<Rightarrow> string" where
  "object_key fileID chunkData = ''chunks/'' @ fileID @ ''/'' @ Sprintf_d (OrderIndex chunkData)"

text \<open>
  The uploads and the chunk rows a write made, read off its list of calls, and the chunk
  row \<open>uploadChunks\<close> builds for a chunk.
\<close>

fun uploads :: "call list \<Rightarrow> (string \<times> byte list) list" where
  "uploads [] = []"
| "uploads (MinioPutObject key data # calls) = (key, data) # uploads calls"
| "uploads (c # calls) = uploads calls"

fun inserted_chunks :: "call list \<Rightarrow> Chunk list" where
  "inserted_chunks [] = []"
| "inserted_chunks (SqlInsertChunk chunk # calls) = chunk # inserted_chunks calls"
| "inserted_chunks (c # calls) = inserted_chunks calls"

definition chunk_model :: "string \<Rightarrow> string \<Rightarrow> ChunkData \<Rightarrow> Chunk" where
  "chunk_model fileID chunkID chunkData =
     \<lparr>cID = chunkID, cFileID = fileID, cOrderIndex = OrderIndex chunkData,
      cHash = Hash chunkData, cMinioObjectKey = object_key fileID chunkData,
      cSize = Size chunkData\<rparr>"

text \<open>
  What the stores return at the time of a read, against the calls \<open>tw\<close> of a write:
  the chunk query returns the rows the write inserted, in the order of their order index;
  every key the write uploaded to returns the bytes uploaded; no key the write uploaded to
  returns other bytes that have the digest of the bytes uploaded.
\<close>

definition rows_hold :: "services \<Rightarrow> string \<Rightarrow> call list \<Rightarrow> bool" where
  "rows_hold sv fileID tw =
     (sqlQueryChunks sv fileID = Rows (map Inr (sort_key cOrderIndex (inserted_chunks tw))) None)"

definition blobs_hold :: "services \<Rightarrow> call list \<Rightarrow> bool" where
  "blobs_hold sv tw =
     list_all (\<lambda>(key, data). minioGetObject sv key = Object data) (uploads tw)"

definition collision_free :: "(byte list \<Rightarrow> byte list) \<Rightarrow> services \<Rightarrow> call list \<Rightarrow> bool" where
  "collision_free sha256 sv tw =
     list_all (\<lambda>(key, data).
        case minioGetObject sv key of
          Object stored \<Rightarrow>
            ComputeHash sha256 stored = ComputeHash sha256 data \<longrightarrow> stored = data
        | _ \<Rightarrow> True) (uploads tw)"

section \<open>Test doubles\<close>

text \<open>
  Concrete values for the instances below: the allocation limit of 64-bit Linux, a digest
  that stands in for SHA-256 (no statement depends on the digest function), and services. \<open>empty_services\<close> holds nothing and answers every call without
  error. \<open>demo_services\<close> holds the file \<open>abc\<close>, whose record counts two chunks, with the
  bytes \<open>1, 2\<close> and \<open>3\<close> stored under two keys; \<open>rows\<close> are the chunk rows it returns.
\<close>

definition maxAlloc64 :: int where
  "maxAlloc64 = 2 ^ 48"

definition test_digest :: "byte list \<Rightarrow> byte list" where
  "test_digest data = [of_nat (length data), sum_list data]"

definition empty_services :: services where
  "empty_services =
     \<lparr>redisGet = (\<lambda>key. RedisNil),
      redisSet = (\<lambda>key data ttl. None),
      redisDel = (\<lambda>key. None),
      jsonMarshal = (\<lambda>file. Inr (''{id:'' @ fID file @ ''}'')),
      jsonUnmarshal = (\<lambda>data. Inl ''unexpected end of JSON input''),
      sqlQueryRowFile = (\<lambda>fileID. ErrNoRows),
      sqlQueryChunks = (\<lambda>fileID. Rows [] None),
      sqlExecInsertFile = (\<lambda>file. None),
      sqlExecInsertChunk = (\<lambda>chunk. None),
      minioGetObject = (\<lambda>key. ReadAllErr ''The specified key does not exist.''),
      minioPutObject = (\<lambda>key data. None)\<rparr>"

definition demo_file :: File where
  "demo_file = \<lparr>fID = ''abc'', fName = ''a.bin'', fSize = 3, fChunkCount = 2, fCreatedAt = 0\<rparr>"

definition demo_chunk0 :: Chunk where
  "demo_chunk0 = \<lparr>cID = ''c0'', cFileID = ''abc'', cOrderIndex = 0, cHash = ''0203'',
                   cMinioObjectKey = ''chunks/abc/0'', cSize = 2\<rparr>"

definition demo_chunk1 :: Chunk where
  "demo_chunk1 = \<lparr>cID = ''c1'', cFileID = ''abc'', cOrderIndex = 1, cHash = ''0103'',
                   cMinioObjectKey = ''chunks/abc/1'', cSize = 1\<rparr>"

definition demo_objects :: "string \<Rightarrow> minio_object" where
  "demo_objects key =
     (if key = ''chunks/abc/0'' then Object [1, 2]
      else if key = ''chunks/abc/1'' then Object [3]
      else ReadAllErr ''The specified key does not exist.'')"

definition demo_services :: "Chunk list \<Rightarrow> services" where
  "demo_services rows =
     empty_services
       \<lparr>sqlQueryRowFile := (\<lambda>fileID. if fileID = ''abc'' then Row demo_file else ErrNoRows),
        sqlQueryChunks := (\<lambda>fileID. if fileID = ''abc'' then Rows (map Inr rows) None
                                      else Rows [] None),
        minioGetObject := demo_objects\<rparr>"

text \<open>The same services after the second object has been overwritten out of band.\<close>

definition corrupted_services :: "Chunk list \<Rightarrow> services" where
  "corrupted_services rows =
     demo_services rows
       \<lparr>minioGetObject := (\<lambda>key. if key = ''chunks/abc/1'' then Object [4] else demo_objects key)\<rparr>"

text \<open>The same services with the file record already in the cache.\<close>

definition cached_services :: "Chunk list \<Rightarrow> services" where
  "cached_services rows =
     demo_services rows
       \<lparr>redisGet := (\<lambda>key. if key = ''file:abc'' then RedisValue ''{id:abc}'' else RedisNil),
        jsonUnmarshal := (\<lambda>data. if data = ''{id:abc}'' then Inr demo_file
                                   else Inl ''unexpected end of JSON input'')\<rparr>"

text \<open>Services whose object store refuses the first upload of the file \<open>abc\<close>.\<close>

definition failing_put_services :: services where
  "failing_put_services =
     empty_services
       \<lparr>minioPutObject := (\<lambda>key data. if key = ''chunks/abc/0'' then Some ''connection reset''
                                        else None)\<rparr>"

text \<open>The identifiers drawn in the write of the instances: the file's, then the chunks'.\<close>

definition demo_uuid :: "nat \<Rightarrow> string" where
  "demo_uuid k = (if k = 0 then ''abc'' else CHR ''c'' # Sprintf_d (int k - 1))"

section \<open>The chunker: what the loop computes\<close>

lemma slices_Nil [simp]: "slices n [] = []"
  by (simp add: slices.simps)

lemma concat_slices: "0 < n \<Longrightarrow> concat (slices n xs) = xs"
proof (induction n xs rule: slices.induct)
  case (1 n xs)
  then show ?case by (subst slices.simps) simp
qed

lemma loop_closed_form:
  assumes "0 < s" and "s \<le> maxAlloc" and "e = EOF \<or> e = ErrUnexpectedEOF"
  shows "ChunkStream_loop sha256 maxAlloc s (Reader bs e) chunks tot idx =
           Some (Returns (Inr (chunks @ number_chunks sha256 idx (slices (nat s) bs),
                               tot + int (length bs))))"
proof (induction bs arbitrary: chunks tot idx rule: length_induct)
  case (1 bs)
  have sp: "0 < nat s" using assms(1) by simp
  show ?case
  proof (cases "nat s \<le> length bs")
    case True
    with sp have ne: "bs \<noteq> []" and len: "length (drop (nat s) bs) < length bs" by auto
    have rf: "ReadFull (Reader bs e) (nat s) =
        (take (nat s) bs, None, Reader (drop (nat s) bs) e)"
      using True by (simp add: ReadFull_def)
    have ch: "slices (nat s) bs = take (nat s) bs # slices (nat s) (drop (nat s) bs)"
      using sp ne by (subst slices.simps) simp
    have tk: "length (take (nat s) bs) = nat s" using True by simp
    show ?thesis
      using sp True 1[rule_format, OF len] assms(1,2)
      by (subst ChunkStream_loop.simps) (simp add: rf ch Let_def tk)
  next
    case False
    then have rf: "ReadFull (Reader bs e) (nat s) =
        (bs, Some (if bs \<noteq> [] \<and> e = EOF then ErrUnexpectedEOF else e), Reader [] e)"
      by (simp add: ReadFull_def)
    have ch: "slices (nat s) bs = (if bs = [] then [] else [bs])"
      using sp False by (subst slices.simps) simp
    show ?thesis
      using assms
      by (subst ChunkStream_loop.simps) (auto simp add: rf ch Let_def)
  qed
qed

lemma loop_terminates:
  assumes "0 < s" and "s \<le> maxAlloc"
  shows "\<exists>res. ChunkStream_loop sha256 maxAlloc s (Reader bs e) chunks tot idx =
           Some (Returns res)"
proof (induction bs arbitrary: chunks tot idx rule: length_induct)
  case (1 bs)
  have sp: "0 < nat s" using assms(1) by simp
  show ?case
  proof (cases "nat s \<le> length bs")
    case True
    with sp have len: "length (drop (nat s) bs) < length bs" by auto
    have rf: "ReadFull (Reader bs e) (nat s) =
        (take (nat s) bs, None, Reader (drop (nat s) bs) e)"
      using True by (simp add: ReadFull_def)
    show ?thesis
      using 1[rule_format, OF len] assms
      by (subst ChunkStream_loop.simps) (simp add: rf Let_def)
  next
    case False
    then have rf: "ReadFull (Reader bs e) (nat s) =
        (bs, Some (if bs \<noteq> [] \<and> e = EOF then ErrUnexpectedEOF else e), Reader [] e)"
      by (simp add: ReadFull_def)
    show ?thesis
      using assms
      by (subst ChunkStream_loop.simps) (simp add: rf Let_def)
  qed
qed

lemma loop_panics:
  assumes "s < 0 \<or> maxAlloc < s"
  shows "ChunkStream_loop sha256 maxAlloc s rd chunks tot idx =
           Some (Panics ''runtime error: makeslice: len out of range'')"
  using assms by (subst ChunkStream_loop.simps) simp

lemma loop_returns_nonzero:
  "ChunkStream_loop sha256 maxAlloc s rd chunks tot idx = Some y \<Longrightarrow> \<not> (s = 0 \<and> 0 \<le> maxAlloc)"
proof (erule ChunkStream_loop.raw_induct
         [where P = "\<lambda>sha256 maxAlloc s rd chunks tot idx y. \<not> (s = 0 \<and> 0 \<le> maxAlloc)",
          rotated])
  fix loop :: "(byte list \<Rightarrow> byte list) \<Rightarrow> int \<Rightarrow> int \<Rightarrow> reader \<Rightarrow> ChunkData list \<Rightarrow> int \<Rightarrow> int
     \<Rightarrow> (error + ChunkData list \<times> int) go option"
  fix sha256 maxAlloc s rd chunks tot idx y
  assume IH: "\<And>sha256 maxAlloc s rd chunks tot idx y.
      loop sha256 maxAlloc s rd chunks tot idx = Some y \<Longrightarrow> \<not> (s = 0 \<and> 0 \<le> maxAlloc)"
  assume body: "(if s < 0 \<or> maxAlloc < s
      then Some (Panics ''runtime error: makeslice: len out of range'')
      else
        case ReadFull rd (nat s) of (chunkData, err, rd') \<Rightarrow>
          let n = length chunkData;
              chunks' = (if n > 0
                         then chunks @ [\<lparr>Data = chunkData, OrderIndex = idx,
                                         Hash = ComputeHash sha256 chunkData, Size = int n\<rparr>]
                         else chunks);
              totalSize' = (if n > 0 then tot + int n else tot);
              orderIndex' = (if n > 0 then idx + 1 else idx)
          in if err = Some EOF \<or> err = Some ErrUnexpectedEOF
             then Some (Returns (Inr (chunks', totalSize')))
             else (case err of
                     Some e \<Rightarrow> Some (Returns (Inl (''error reading chunk: '' @ Error e)))
                   | None \<Rightarrow> loop sha256 maxAlloc s rd' chunks' totalSize' orderIndex')) = Some y"
  show "\<not> (s = 0 \<and> 0 \<le> maxAlloc)"
  proof
    assume z: "s = 0 \<and> 0 \<le> maxAlloc"
    have rf: "ReadFull rd 0 = ([], None, rd)" by (simp add: ReadFull_def)
    from body z have "loop sha256 maxAlloc 0 rd chunks tot idx = Some y"
      by (simp add: rf)
    from IH[OF this] z show False by simp
  qed
qed

lemma loop_zero_diverges:
  assumes "0 \<le> maxAlloc"
  shows "ChunkStream_loop sha256 maxAlloc 0 rd chunks tot idx = None"
proof (cases "ChunkStream_loop sha256 maxAlloc 0 rd chunks tot idx")
  case None
  then show ?thesis .
next
  case (Some y)
  from loop_returns_nonzero[OF this] assms show ?thesis by simp
qed

lemma length_slices: "0 < n \<Longrightarrow> length (slices n xs) = (length xs + n - 1) div n"
proof (induction n xs rule: slices.induct)
  case (1 n xs)
  show ?case
  proof (cases "xs = []")
    case True
    with 1(2) show ?thesis by simp
  next
    case False
    then have pos: "0 < length xs" by simp
    have step: "length (slices n xs) = Suc ((length xs - n + n - 1) div n)"
      using 1 False by (subst slices.simps) simp
    show ?thesis
    proof (cases "n \<le> length xs")
      case True
      then have "length xs - n + n - 1 = length xs - 1" by simp
      with step have "length (slices n xs) = Suc ((length xs - 1) div n)" by simp
      also have "\<dots> = (length xs - 1 + n) div n"
        by (simp only: div_add_self2 [OF less_imp_neq [OF 1(2), symmetric]])
      also have "length xs - 1 + n = length xs + n - 1" using pos by linarith
      finally show ?thesis .
    next
      case False
      then have "length xs - n + n - 1 = n - 1" by simp
      with step 1(2) have l: "length (slices n xs) = 1" by simp
      have "n \<le> length xs + n - 1" using pos by linarith
      moreover have "length xs + n - 1 < 2 * n" using False by linarith
      ultimately have "(length xs + n - 1) div n = 1"
        by (intro div_nat_eqI) simp_all
      with l show ?thesis by simp
    qed
  qed
qed

lemma ceiling_div_nat:
  assumes "0 < (s::nat)"
  shows "\<lceil>real n / real s\<rceil> = int ((n + s - 1) div s)"
proof -
  define q where "q = (n + s - 1) div s"
  have 1: "q * s \<le> n + s - 1" unfolding q_def by simp
  have 2: "n + s - 1 < q * s + s" unfolding q_def using assms
    using dividend_less_div_times[of s "n + s - 1"] by (simp add: algebra_simps)
  have a: "real n \<le> real q * real s"
  proof -
    from 2 have "n < q * s + 1" using assms by linarith
    then have "n \<le> q * s" by simp
    then have "real n \<le> real (q * s)" by (simp only: of_nat_le_iff)
    then show ?thesis by simp
  qed
  have b: "real q * real s - real s < real n"
  proof -
    from 1 have "q * s < n + s" using assms by linarith
    then have "real (q * s) < real (n + s)" by (simp only: of_nat_less_iff)
    then show ?thesis by simp
  qed
  have sp: "0 < real s" using assms by simp
  have "\<lceil>real n / real s\<rceil> = int q"
  proof (rule ceiling_unique)
    have "(real q - 1) * real s < real n" using b by (simp add: algebra_simps)
    then show "of_int (int q) - 1 < real n / real s"
      using sp by (simp add: pos_less_divide_eq)
    show "real n / real s \<le> of_int (int q)"
      using a sp by (simp add: pos_divide_le_eq)
  qed
  then show ?thesis by (simp add: q_def)
qed

lemma slices_nth_full:
  "0 < n \<Longrightarrow> Suc i < length (slices n xs) \<Longrightarrow> length (slices n xs ! i) = n"
proof (induction n xs arbitrary: i rule: slices.induct)
  case (1 n xs)
  from 1(3) have ne: "xs \<noteq> []" by auto
  have ch: "slices n xs = take n xs # slices n (drop n xs)"
    using 1(2) ne by (subst slices.simps) simp
  from 1(3) ch have rest: "slices n (drop n xs) \<noteq> []" by auto
  then have "drop n xs \<noteq> []" by auto
  then have full: "length (take n xs) = n" by simp
  show ?case
  proof (cases i)
    case 0
    then show ?thesis using ch full by simp
  next
    case (Suc j)
    with 1(3) ch have "Suc j < length (slices n (drop n xs))" by simp
    from 1(1)[OF _ 1(2) this] 1(2) ne have "length (slices n (drop n xs) ! j) = n" by simp
    then show ?thesis using ch Suc by simp
  qed
qed

lemma slices_last:
  "0 < n \<Longrightarrow> xs \<noteq> [] \<Longrightarrow>
     slices n xs \<noteq> [] \<and> 0 < length (last (slices n xs)) \<and> length (last (slices n xs)) \<le> n"
proof (induction n xs rule: slices.induct)
  case (1 n xs)
  have ch: "slices n xs = take n xs # slices n (drop n xs)"
    using 1(2,3) by (subst slices.simps) simp
  show ?case
  proof (cases "drop n xs = []")
    case True
    then show ?thesis using ch 1(2,3) by simp
  next
    case False
    from 1(1)[OF _ 1(2) False] 1(2,3) show ?thesis using ch by simp
  qed
qed

lemma number_chunks_Data [simp]: "map Data (number_chunks sha256 i ds) = ds"
  by (induction ds arbitrary: i) simp_all

lemma length_number_chunks [simp]: "length (number_chunks sha256 i ds) = length ds"
  by (induction ds arbitrary: i) simp_all

lemma number_chunks_nth:
  "k < length ds \<Longrightarrow> number_chunks sha256 i ds ! k =
     \<lparr>Data = ds ! k, OrderIndex = i + int k, Hash = ComputeHash sha256 (ds ! k),
      Size = int (length (ds ! k))\<rparr>"
proof (induction ds arbitrary: i k)
  case Nil
  then show ?case by simp
next
  case (Cons d ds)
  then show ?case by (cases k) simp_all
qed

lemma number_chunks_Size_sum:
  "sum_list (map Size (number_chunks sha256 i ds)) = int (length (concat ds))"
  by (induction ds arbitrary: i) simp_all

lemma ReassembleChunks_concat: "ReassembleChunks cs = concat cs"
proof -
  have "foldl (\<lambda>result chunk. result @ chunk) acc cs = acc @ concat cs" for acc
    by (induction cs arbitrary: acc) simp_all
  then show ?thesis by (simp add: ReassembleChunks_def)
qed

lemma ChunkStream_closed_form:
  assumes "0 < s" and "s \<le> maxAlloc"
  shows "ChunkStream sha256 maxAlloc s (Reader bs EOF) =
           Some (Returns (Inr (number_chunks sha256 0 (slices (nat s) bs), int (length bs))))"
  using loop_closed_form[OF assms, of EOF sha256 bs "[]" 0 0]
  by (simp add: ChunkStream_def)

lemma number_chunks_OrderIndex:
  "map OrderIndex (number_chunks sha256 i ds) = map (\<lambda>k. i + int k) [0..<length ds]"
proof (induction ds arbitrary: i)
  case Nil
  then show ?case by simp
next
  case (Cons d ds)
  have "map (\<lambda>k. i + int k) [0..<Suc (length ds)] =
          i # map (\<lambda>k. i + int k) (map Suc [0..<length ds])"
    by (simp only: upt_conv_Cons [OF zero_less_Suc] map_Suc_upt) simp
  then show ?case using Cons.IH[of "i + 1"] by (simp add: comp_def add.assoc)
qed

lemma sorted_number_chunks: "sorted (map OrderIndex (number_chunks sha256 i ds))"
  unfolding number_chunks_OrderIndex
  by (rule sorted_map [THEN iffD2]) (simp add: sorted_wrt_iff_nth_less)


section \<open>The chunker: count, sizes and order\<close>

lemma roundtrip_split_reassemble:
  assumes "0 < s" and "s \<le> maxAlloc"
  shows "\<exists>chunks tot. ChunkStream sha256 maxAlloc s (Reader bs EOF) =
             Some (Returns (Inr (chunks, tot)))
           \<and> ReassembleChunks (map Data (sort_key OrderIndex chunks)) = bs"
proof -
  let ?cs = "number_chunks sha256 0 (slices (nat s) bs)"
  have "sort_key OrderIndex ?cs = ?cs"
    by (rule sort_key_id_if_sorted) (rule sorted_number_chunks)
  moreover have "concat (slices (nat s) bs) = bs"
    using assms by (simp add: concat_slices)
  ultimately show ?thesis
    using ChunkStream_closed_form[OF assms, of sha256 bs]
    by (simp add: ReassembleChunks_concat)
qed

lemma maxAlloc64_bounds: "(2::int) \<le> maxAlloc64" "(1::int) \<le> maxAlloc64" "(0::int) \<le> maxAlloc64"
  "maxAlloc64 < 2 ^ 62"
  by (simp_all add: maxAlloc64_def)

lemma GetChunkSizeBytes_values:
  "GetChunkSizeBytes \<lparr>ChunkSizeMB = 1\<rparr> = 1048576"
  "GetChunkSizeBytes \<lparr>ChunkSizeMB = 0\<rparr> = 0"
  "GetChunkSizeBytes \<lparr>ChunkSizeMB = 4398046511104\<rparr> = 2 ^ 62"
  by (simp_all add: GetChunkSizeBytes_def)

text \<open>
  Claim C6, as amended. For an input of \<open>n\<close> bytes and a positive chunk size \<open>s\<close> within
  the allocation limit, \<open>ChunkStream\<close> returns \<open>\<lceil>n / s\<rceil>\<close> chunks when \<open>n > 0\<close>, and no
  chunk and a total size of 0 when \<open>n = 0\<close>.
\<close>

theorem segment_count_law:
  assumes "0 < s" and "s \<le> maxAlloc"
  shows "\<exists>chunks tot. ChunkStream sha256 maxAlloc s (Reader bs EOF) =
             Some (Returns (Inr (chunks, tot)))
           \<and> (bs \<noteq> [] \<longrightarrow> int (length chunks) = \<lceil>real (length bs) / real_of_int s\<rceil>)
           \<and> (bs = [] \<longrightarrow> chunks = [] \<and> tot = 0)"
proof -
  have sp: "0 < nat s" using assms by simp
  have rs: "real_of_int s = real (nat s)" using assms by simp
  have "int (length (slices (nat s) bs)) = \<lceil>real (length bs) / real_of_int s\<rceil>"
    unfolding rs by (simp only: ceiling_div_nat [OF sp] length_slices [OF sp])
  then show ?thesis
    using ChunkStream_closed_form[OF assms, of sha256 bs] by simp
qed

theorem segment_count_law_witness:
  "(\<exists>chunks tot. ChunkStream test_digest maxAlloc64 2 (Reader [1, 2, 3] EOF) =
        Some (Returns (Inr (chunks, tot)))
      \<and> int (length chunks) = 2)
   \<and> (\<exists>chunks tot. ChunkStream test_digest maxAlloc64 2 (Reader [] EOF) =
        Some (Returns (Inr (chunks, tot)))
      \<and> chunks = [] \<and> tot = 0)"
proof -
  have c: "\<lceil>real (length [1, 2, 3 :: byte]) / real_of_int 2\<rceil> = 2"
    by (simp add: ceiling_eq_iff)
  have pos: "(0::int) < 2" by simp
  show ?thesis
    using segment_count_law[OF pos maxAlloc64_bounds(1), of test_digest "[1, 2, 3]"]
      segment_count_law[OF pos maxAlloc64_bounds(1), of test_digest "[]"]
    unfolding c by simp
qed

text \<open>
  Claim C6 as stated covers every positive chunk size. With \<open>CHUNK_SIZE_MB=4398046511104\<close>
  the chunk size is \<open>2 ^ 62\<close> bytes, above the allocation limit, and \<open>ChunkStream\<close> panics
  on the empty input instead of returning no chunks.
\<close>

theorem segment_count_counterexample:
  "GetChunkSizeBytes \<lparr>ChunkSizeMB = 4398046511104\<rparr> = 2 ^ 62
   \<and> ChunkStream test_digest maxAlloc64 (2 ^ 62) (Reader [] EOF) =
       Some (Panics ''runtime error: makeslice: len out of range'')"
  using maxAlloc64_bounds(4)
  by (simp add: GetChunkSizeBytes_values ChunkStream_def loop_panics)

text \<open>
  Claim C7, as amended. For a non-empty input and a positive chunk size \<open>s\<close> within the
  allocation limit, every chunk but the last has size \<open>s\<close>, the last has a size from 1 to
  \<open>s\<close>, the order indices are \<open>0, 1, 2, \<dots>\<close> in input order, and the total size returned
  is the sum of the chunk sizes. The \<open>Size\<close> field of a chunk is the length of its data.
\<close>

theorem segment_sizes_and_indices:
  assumes "0 < s" and "s \<le> maxAlloc" and "bs \<noteq> []"
  shows "\<exists>chunks tot. ChunkStream sha256 maxAlloc s (Reader bs EOF) =
             Some (Returns (Inr (chunks, tot)))
           \<and> chunks \<noteq> []
           \<and> (\<forall>i. Suc i < length chunks \<longrightarrow>
                  Size (chunks ! i) = s \<and> int (length (Data (chunks ! i))) = s)
           \<and> 1 \<le> Size (last chunks) \<and> Size (last chunks) \<le> s
           \<and> Size (last chunks) = int (length (Data (last chunks)))
           \<and> map OrderIndex chunks = map int [0..<length chunks]
           \<and> tot = sum_list (map Size chunks)"
proof -
  let ?ds = "slices (nat s) bs"
  let ?cs = "number_chunks sha256 0 ?ds"
  have sp: "0 < nat s" using assms by simp
  note l = slices_last[OF sp assms(3)]
  have ne: "?cs \<noteq> []" using l by (cases ?ds) simp_all
  have full: "Size (?cs ! i) = s \<and> int (length (Data (?cs ! i))) = s" if "Suc i < length ?cs" for i
  proof -
    from that have i: "Suc i < length ?ds" by simp
    then have "i < length ?ds" by simp
    from number_chunks_nth[OF this, of sha256 0] slices_nth_full[OF sp i] assms(1)
    show ?thesis by simp
  qed
  have lastc: "last ?cs = ?cs ! (length ?ds - 1)"
    using ne by (simp add: last_conv_nth)
  have lastd: "last ?ds = ?ds ! (length ?ds - 1)"
    using l by (simp add: last_conv_nth)
  have "length ?ds - 1 < length ?ds" using l by simp
  from number_chunks_nth[OF this, of sha256 0]
  have lst: "Size (last ?cs) = int (length (last ?ds))" "Data (last ?cs) = last ?ds"
    by (simp_all add: lastc lastd)
  from l have "0 < length (last ?ds)" and "length (last ?ds) \<le> nat s" by blast+
  then have last_bounds: "1 \<le> Size (last ?cs)" "Size (last ?cs) \<le> s"
    unfolding lst using assms(1) by linarith+
  have idx: "map OrderIndex ?cs = map int [0..<length ?cs]"
    by (simp add: number_chunks_OrderIndex)
  have tot: "int (length bs) = sum_list (map Size ?cs)"
    by (simp add: number_chunks_Size_sum concat_slices[OF sp])
  show ?thesis
    using ChunkStream_closed_form[OF assms(1,2), of sha256 bs] ne full last_bounds lst idx tot
    by (intro exI[of _ ?cs] exI[of _ "int (length bs)"]) simp
qed

theorem segment_sizes_and_indices_witness:
  "\<exists>chunks tot. ChunkStream test_digest maxAlloc64 2 (Reader [1, 2, 3] EOF) =
       Some (Returns (Inr (chunks, tot)))
     \<and> chunks \<noteq> []
     \<and> Size (chunks ! 0) = 2 \<and> int (length (Data (chunks ! 0))) = 2
     \<and> 1 \<le> Size (last chunks) \<and> Size (last chunks) \<le> 2
     \<and> map OrderIndex chunks = map int [0..<length chunks]
     \<and> tot = sum_list (map Size chunks)"
proof -
  have h: "(0::int) < 2" "[1, 2, 3 :: byte] \<noteq> []" by simp_all
  from segment_sizes_and_indices[OF h(1) maxAlloc64_bounds(1) h(2), of test_digest]
  obtain chunks tot where
    r: "ChunkStream test_digest maxAlloc64 2 (Reader [1, 2, 3] EOF) =
          Some (Returns (Inr (chunks, tot)))"
    and ne: "chunks \<noteq> []"
    and full: "\<forall>i. Suc i < length chunks \<longrightarrow>
                  Size (chunks ! i) = 2 \<and> int (length (Data (chunks ! i))) = 2"
    and rest: "1 \<le> Size (last chunks)" "Size (last chunks) \<le> 2"
      "map OrderIndex chunks = map int [0..<length chunks]"
      "tot = sum_list (map Size chunks)"
    by blast
  have "ChunkStream test_digest maxAlloc64 2 (Reader [1, 2, 3] EOF) =
          Some (Returns (Inr (number_chunks test_digest 0 (slices 2 [1, 2, 3]), 3)))"
    using ChunkStream_closed_form[OF h(1) maxAlloc64_bounds(1), of test_digest "[1, 2, 3]"]
    by simp
  with r have "chunks = number_chunks test_digest 0 (slices 2 [1, 2, 3])" by simp
  then have "length chunks = length (slices 2 [1, 2, 3 :: byte])" by simp
  also have "\<dots> = 2" by (simp add: slices.simps)
  finally have "Suc 0 < length chunks" by simp
  with full have "Size (chunks ! 0) = 2 \<and> int (length (Data (chunks ! 0))) = 2" by blast
  with r ne rest show ?thesis by blast
qed

text \<open>
  Claim C7 as stated covers every positive chunk size. With a chunk size of \<open>2 ^ 62\<close>
  the non-empty input \<open>1, 2, 3\<close> gives a panic and no chunk at all.
\<close>

theorem segment_sizes_counterexample:
  "ChunkStream test_digest maxAlloc64 (2 ^ 62) (Reader [1, 2, 3] EOF) =
     Some (Panics ''runtime error: makeslice: len out of range'')"
  using maxAlloc64_bounds(4) by (simp add: ChunkStream_def loop_panics)

section \<open>The chunker: termination\<close>

text \<open>
  Claim C10, as amended. On every finite stream, however it ends, \<open>ChunkStream\<close> returns
  when the chunk size is at least 1 and within the allocation limit. With a chunk size of
  0 it never returns, even on an empty stream. With a chunk size below 0 or above the
  allocation limit it does not loop: allocating the buffer panics in the first iteration.
\<close>

theorem ChunkStream_termination:
  "(1 \<le> s \<and> s \<le> maxAlloc \<longrightarrow>
      (\<exists>res. ChunkStream sha256 maxAlloc s (Reader bs e) = Some (Returns res)))
   \<and> (s = 0 \<and> 0 \<le> maxAlloc \<longrightarrow> ChunkStream sha256 maxAlloc s (Reader bs e) = None)
   \<and> (s < 0 \<or> maxAlloc < s \<longrightarrow>
      ChunkStream sha256 maxAlloc s (Reader bs e) =
        Some (Panics ''runtime error: makeslice: len out of range''))"
proof (intro conjI impI)
  assume "1 \<le> s \<and> s \<le> maxAlloc"
  then have "0 < s" and "s \<le> maxAlloc" by simp_all
  from loop_terminates[OF this, of sha256 bs e "[]" 0 0]
  show "\<exists>res. ChunkStream sha256 maxAlloc s (Reader bs e) = Some (Returns res)"
    by (simp add: ChunkStream_def)
next
  assume "s = 0 \<and> 0 \<le> maxAlloc"
  then show "ChunkStream sha256 maxAlloc s (Reader bs e) = None"
    by (simp add: ChunkStream_def loop_zero_diverges)
next
  assume "s < 0 \<or> maxAlloc < s"
  then show "ChunkStream sha256 maxAlloc s (Reader bs e) =
      Some (Panics ''runtime error: makeslice: len out of range'')"
    unfolding ChunkStream_def by (rule loop_panics)
qed

theorem ChunkStream_termination_witness:
  "(\<exists>res. ChunkStream test_digest maxAlloc64 1 (Reader [1, 2, 3] (OtherErr ''connection reset'')) =
       Some (Returns res))
   \<and> ChunkStream test_digest maxAlloc64 0 (Reader [] EOF) = None
   \<and> ChunkStream test_digest maxAlloc64 (- 1) (Reader [] EOF) =
       Some (Panics ''runtime error: makeslice: len out of range'')
   \<and> ChunkStream test_digest maxAlloc64 (2 ^ 62) (Reader [] EOF) =
       Some (Panics ''runtime error: makeslice: len out of range'')"
  using ChunkStream_termination[of 1 maxAlloc64 test_digest "[1, 2, 3]" "OtherErr ''connection reset''"]
    ChunkStream_termination[of 0 maxAlloc64 test_digest "[]" EOF]
    ChunkStream_termination[of "- 1" maxAlloc64 test_digest "[]" EOF]
    ChunkStream_termination[of "2 ^ 62" maxAlloc64 test_digest "[]" EOF]
    maxAlloc64_bounds
  by simp

text \<open>
  Claim C10 as stated says that a chunk size below 0 makes the loop run for ever on an
  empty input. With a chunk size of \<open>-1\<close> the call ends (in a panic).
\<close>

theorem negative_chunk_size_counterexample:
  "ChunkStream test_digest maxAlloc64 (- 1) (Reader [] EOF) \<noteq> None"
  by (simp add: ChunkStream_def loop_panics)

lemma zero_chunk_size_configured:
  "0 \<le> maxAlloc \<Longrightarrow>
     ChunkStream sha256 maxAlloc (GetChunkSizeBytes \<lparr>ChunkSizeMB = 0\<rparr>) rd = None"
  by (simp add: GetChunkSizeBytes_def ChunkStream_def loop_zero_diverges)

text \<open>
  A request body that is shorter than its declared length ends in
  \<open>io.ErrUnexpectedEOF\<close>; the loop leaves as it does at \<open>io.EOF\<close>, and \<open>ChunkStream\<close>
  returns the chunks of the bytes received, with no error.
\<close>

lemma truncated_body_accepted:
  assumes "0 < s" and "s \<le> maxAlloc"
  shows "ChunkStream sha256 maxAlloc s (Reader bs ErrUnexpectedEOF) =
           ChunkStream sha256 maxAlloc s (Reader bs EOF)"
  using loop_closed_form[OF assms, of ErrUnexpectedEOF sha256 bs "[]" 0 0]
    loop_closed_form[OF assms, of EOF sha256 bs "[]" 0 0]
  by (simp add: ChunkStream_def)


section \<open>The read handler: the concurrent fetch\<close>

lemma fetchUnit_eq:
  "fetchUnit sha256 sv (slots, errs, tr) idx meta =
     (case unit_slot sha256 sv meta of
        Some data \<Rightarrow> (slots[idx := Some data], errs, tr @ [MinioGetObject (cMinioObjectKey meta)])
      | None \<Rightarrow>
          (slots, errs @ [unit_error sv idx meta],
           tr @ [MinioGetObject (cMinioObjectKey meta)]))"
  by (simp add: fetchUnit_def unit_slot_def unit_error_def DownloadChunk_def
        split: minio_object.splits)

lemma fetchUnit_slots:
  "fst (fetchUnit sha256 sv st idx meta) =
     (case unit_slot sha256 sv meta of Some data \<Rightarrow> (fst st)[idx := Some data] | None \<Rightarrow> fst st)"
  by (cases st) (simp add: fetchUnit_eq split: option.splits)

lemma fetchUnit_errs_empty:
  "fst (snd (fetchUnit sha256 sv st idx meta)) = [] \<longleftrightarrow>
     fst (snd st) = [] \<and> unit_slot sha256 sv meta \<noteq> None"
  by (cases st) (auto simp add: fetchUnit_eq split: option.splits)

lemma fetchUnit_trace:
  "snd (snd (fetchUnit sha256 sv st idx meta)) =
     snd (snd st) @ [MinioGetObject (cMinioObjectKey meta)]"
  by (cases st) (simp add: fetchUnit_eq split: option.splits)

lemma fold_slots_length:
  "length (fst (foldl (\<lambda>st idx. fetchUnit sha256 sv st idx (metas ! idx)) st sched)) = length (fst st)"
  by (induction sched arbitrary: st) (simp_all add: fetchUnit_slots split: option.splits)

lemma fold_slots_nth:
  assumes "i < length (fst st)"
  shows "fst (foldl (\<lambda>st idx. fetchUnit sha256 sv st idx (metas ! idx)) st sched) ! i =
           (if i \<in> set sched \<and> unit_slot sha256 sv (metas ! i) \<noteq> None
            then unit_slot sha256 sv (metas ! i) else fst st ! i)"
  using assms
proof (induction sched arbitrary: st)
  case Nil
  then show ?case by simp
next
  case (Cons idx sched)
  let ?st' = "fetchUnit sha256 sv st idx (metas ! idx)"
  have len: "i < length (fst ?st')"
    using Cons.prems by (simp add: fetchUnit_slots split: option.splits)
  have here: "fst ?st' ! i =
      (if i = idx \<and> unit_slot sha256 sv (metas ! i) \<noteq> None
       then unit_slot sha256 sv (metas ! i) else fst st ! i)"
    using Cons.prems by (auto simp add: fetchUnit_slots nth_list_update split: option.splits)
  show ?case
    using Cons.IH[OF len] here by auto
qed

lemma fold_errs_empty:
  "fst (snd (foldl (\<lambda>st idx. fetchUnit sha256 sv st idx (metas ! idx)) st sched)) = [] \<longleftrightarrow>
     fst (snd st) = [] \<and> (\<forall>idx \<in> set sched. unit_slot sha256 sv (metas ! idx) \<noteq> None)"
  by (induction sched arbitrary: st) (auto simp add: fetchUnit_errs_empty)

lemma fold_trace:
  "snd (snd (foldl (\<lambda>st idx. fetchUnit sha256 sv st idx (metas ! idx)) st sched)) =
     snd (snd st) @ map (\<lambda>idx. MinioGetObject (cMinioObjectKey (metas ! idx))) sched"
  by (induction sched arbitrary: st) (simp_all add: fetchUnit_trace)

lemma fetchUnits_slots:
  assumes "is_schedule sched (length metas)"
  shows "fst (fetchUnits sha256 sv sched metas) = map (unit_slot sha256 sv) metas"
proof (rule nth_equalityI)
  show "length (fst (fetchUnits sha256 sv sched metas)) = length (map (unit_slot sha256 sv) metas)"
    by (simp add: fetchUnits_def fold_slots_length)
next
  fix i
  assume "i < length (fst (fetchUnits sha256 sv sched metas))"
  then have i: "i < length metas"
    by (simp add: fetchUnits_def fold_slots_length)
  then have "i \<in> set sched" using assms by (simp add: is_schedule_def)
  then show "fst (fetchUnits sha256 sv sched metas) ! i = map (unit_slot sha256 sv) metas ! i"
    using i by (simp add: fetchUnits_def fold_slots_nth)
qed

lemma fetchUnits_errs_empty:
  assumes "is_schedule sched (length metas)"
  shows "fst (snd (fetchUnits sha256 sv sched metas)) = [] \<longleftrightarrow>
           (\<forall>i < length metas. unit_slot sha256 sv (metas ! i) \<noteq> None)"
  using assms by (auto simp add: fetchUnits_def fold_errs_empty is_schedule_def)

lemma fetchUnits_trace:
  "snd (snd (fetchUnits sha256 sv sched metas)) =
     map (\<lambda>idx. MinioGetObject (cMinioObjectKey (metas ! idx))) sched"
  by (simp add: fetchUnits_def fold_trace)

lemma fetchChunksParallel_result:
  assumes "is_schedule sched (length metas)"
  shows "fst (fetchChunksParallel sha256 sv sched metas) =
           (if \<forall>i < length metas. unit_slot sha256 sv (metas ! i) \<noteq> None
            then Inr (map (unit_slot sha256 sv) metas)
            else Inl (hd (fst (snd (fetchUnits sha256 sv sched metas)))))"
proof -
  obtain slots errs tr where st: "fetchUnits sha256 sv sched metas = (slots, errs, tr)"
    by (cases "fetchUnits sha256 sv sched metas") auto
  from fetchUnits_slots[OF assms, of sha256 sv] st
  have slots: "slots = map (unit_slot sha256 sv) metas" by simp
  from fetchUnits_errs_empty[OF assms, of sha256 sv] st
  have errs: "errs = [] \<longleftrightarrow> (\<forall>i < length metas. unit_slot sha256 sv (metas ! i) \<noteq> None)" by simp
  show ?thesis
    using slots errs by (simp add: fetchChunksParallel_def st)
qed

lemma fetchChunksParallel_trace:
  "snd (fetchChunksParallel sha256 sv sched metas) =
     map (\<lambda>idx. MinioGetObject (cMinioObjectKey (metas ! idx))) sched"
proof -
  obtain slots errs tr where st: "fetchUnits sha256 sv sched metas = (slots, errs, tr)"
    by (cases "fetchUnits sha256 sv sched metas") auto
  with fetchUnits_trace[of sha256 sv sched metas] show ?thesis
    by (simp add: fetchChunksParallel_def)
qed

lemma fold_errs:
  "fst (snd (foldl (\<lambda>st idx. fetchUnit sha256 sv st idx (metas ! idx)) st sched)) =
     fst (snd st) @ map (\<lambda>idx. unit_error sv idx (metas ! idx))
                      (filter (\<lambda>idx. unit_slot sha256 sv (metas ! idx) = None) sched)"
proof (induction sched arbitrary: st)
  case Nil
  then show ?case by simp
next
  case (Cons idx sched)
  show ?case
    by (cases st) (simp add: Cons.IH fetchUnit_eq split: option.splits)
qed

lemma unit_slot_None_iff: "unit_slot sha256 sv meta = None \<longleftrightarrow> unit_fails sha256 sv meta"
  by (simp add: unit_slot_def unit_fails_def split: sum.splits)

lemma unit_slot_Some_iff:
  "unit_slot sha256 sv meta = Some data \<longleftrightarrow>
     fst (DownloadChunk sv (cMinioObjectKey meta)) = Inr data \<and>
     VerifyChunkHash sha256 data (cHash meta)"
  by (auto simp add: unit_slot_def split: sum.splits)

section \<open>The read handler: responses\<close>

lemmas read_defs =
  ServeHTTP_read_def getFileMetadata_def GetFileMetadata_def GetFile_def SetFileMetadata_def
  getChunkMetadata_def GetChunks_def fetchChunksParallel_def fetchUnits_def fetchUnit_def
  DownloadChunk_def VerifyChunkHash_def ComputeHash_def EncodeToString_def hextable_def
  reassembleFile_def ReassembleChunks_def slot_bytes_def CacheTTL_def
  unit_fails_def unit_slot_def unit_error_def is_schedule_def

lemmas double_defs =
  test_digest_def empty_services_def demo_services_def cached_services_def
  corrupted_services_def demo_file_def demo_chunk0_def demo_chunk1_def demo_objects_def

lemmas status_defs =
  StatusOK_def StatusCreated_def StatusBadRequest_def StatusNotFound_def
  StatusInternalServerError_def

lemma Sprintf_d_digits [simp]: "Sprintf_d 0 = ''0''" "Sprintf_d 1 = ''1''"
  by (simp_all add: Sprintf_d_def decimal.simps)

lemma read_after_plan:
  assumes "fileID \<noteq> []"
    and "getFileMetadata sv fileID = (Inr (Some file), t1)"
    and "getChunkMetadata sv fileID = (Inr chunks, t2)"
  shows "ServeHTTP_read sha256 sv sched fileID =
           (case fetchChunksParallel sha256 sv sched chunks of
              (Inl err, t3) \<Rightarrow>
                (Response StatusInternalServerError
                   (Text (''failed to fetch chunks: '' @ err)), t1 @ t2 @ t3)
            | (Inr chunkData, t3) \<Rightarrow>
                (Response StatusOK (Bytes (reassembleFile chunkData)), t1 @ t2 @ t3))"
  using assms by (simp add: ServeHTTP_read_def)

lemma reassembleFile_slots:
  "reassembleFile slots = concat (map slot_bytes slots)"
  by (simp add: reassembleFile_def ReassembleChunks_concat)

lemma read_trace_after_plan:
  assumes "fileID \<noteq> []"
    and "getFileMetadata sv fileID = (Inr (Some file), t1)"
    and "getChunkMetadata sv fileID = (Inr chunks, t2)"
  shows "snd (ServeHTTP_read sha256 sv sched fileID) =
           t1 @ t2 @ map (\<lambda>idx. MinioGetObject (cMinioObjectKey (chunks ! idx))) sched"
proof -
  obtain r t3 where f: "fetchChunksParallel sha256 sv sched chunks = (r, t3)"
    by (cases "fetchChunksParallel sha256 sv sched chunks") auto
  with fetchChunksParallel_trace[of sha256 sv sched chunks]
  have "t3 = map (\<lambda>idx. MinioGetObject (cMinioObjectKey (chunks ! idx))) sched" by simp
  then show ?thesis
    by (cases r) (simp_all add: read_after_plan[OF assms] f)
qed

lemma demo_metadata:
  "getFileMetadata (demo_services rows) ''abc'' =
     (Inr (Some demo_file),
      [RedisGet ''file:abc'', SqlQueryRowFile ''abc'', RedisSet ''file:abc'' ''{id:abc}'' 300])"
  "getChunkMetadata (demo_services rows) ''abc'' = (Inr rows, [SqlQueryChunks ''abc''])"
  "getFileMetadata (corrupted_services rows) ''abc'' =
     (Inr (Some demo_file),
      [RedisGet ''file:abc'', SqlQueryRowFile ''abc'', RedisSet ''file:abc'' ''{id:abc}'' 300])"
  "getChunkMetadata (corrupted_services rows) ''abc'' = (Inr rows, [SqlQueryChunks ''abc''])"
proof -
  have scan: "scan_rows (map Inr rs) acc = Inr (acc @ rs)" for rs acc
    by (induction rs arbitrary: acc) simp_all
  show "getFileMetadata (demo_services rows) ''abc'' =
     (Inr (Some demo_file),
      [RedisGet ''file:abc'', SqlQueryRowFile ''abc'', RedisSet ''file:abc'' ''{id:abc}'' 300])"
    by (simp add: read_defs double_defs)
  show "getFileMetadata (corrupted_services rows) ''abc'' =
     (Inr (Some demo_file),
      [RedisGet ''file:abc'', SqlQueryRowFile ''abc'', RedisSet ''file:abc'' ''{id:abc}'' 300])"
    by (simp add: read_defs double_defs)
  show "getChunkMetadata (demo_services rows) ''abc'' = (Inr rows, [SqlQueryChunks ''abc''])"
    by (simp add: read_defs double_defs scan)
  show "getChunkMetadata (corrupted_services rows) ''abc'' = (Inr rows, [SqlQueryChunks ''abc''])"
    by (simp add: read_defs double_defs scan)
qed

lemma demo_units:
  "\<not> unit_fails test_digest (demo_services rows) demo_chunk0"
  "\<not> unit_fails test_digest (demo_services rows) demo_chunk1"
  "unit_fails test_digest (corrupted_services rows) demo_chunk1"
  by (simp_all add: read_defs double_defs)

lemma demo_schedule: "is_schedule [1, 0] (length [demo_chunk0, demo_chunk1])"
  "is_schedule [0, 1] (length [demo_chunk0, demo_chunk1])"
  by (auto simp add: is_schedule_def)

text \<open>
  Claim C5. In a read whose file record and chunk list have been fetched: if some unit fails
  (its download fails, or the digest of the downloaded bytes differs from the recorded
  hash), \<open>fetchChunksParallel\<close> returns an error and the response is a 500 that carries
  that error and no data; if no unit fails, every slot holds the bytes its unit downloaded
  and verified, and the response is a 200 with the slots' bytes in index order. So a 200
  never carries bytes whose digest differs from the recorded hash.
\<close>

theorem read_fails_iff_a_unit_fails:
  assumes "is_schedule sched (length chunks)"
    and "fileID \<noteq> []"
    and "getFileMetadata sv fileID = (Inr (Some file), t1)"
    and "getChunkMetadata sv fileID = (Inr chunks, t2)"
  shows "((\<exists>i < length chunks. unit_fails sha256 sv (chunks ! i)) \<longrightarrow>
            (\<exists>err. fst (fetchChunksParallel sha256 sv sched chunks) = Inl err
                 \<and> fst (ServeHTTP_read sha256 sv sched fileID) =
                      Response StatusInternalServerError
                        (Text (''failed to fetch chunks: '' @ err))))
       \<and> ((\<forall>i < length chunks. \<not> unit_fails sha256 sv (chunks ! i)) \<longrightarrow>
            (\<exists>slots. fst (fetchChunksParallel sha256 sv sched chunks) = Inr slots
                 \<and> length slots = length chunks
                 \<and> (\<forall>i < length chunks. \<exists>data. slots ! i = Some data
                        \<and> fst (DownloadChunk sv (cMinioObjectKey (chunks ! i))) = Inr data
                        \<and> VerifyChunkHash sha256 data (cHash (chunks ! i)))
                 \<and> fst (ServeHTTP_read sha256 sv sched fileID) =
                      Response StatusOK (Bytes (concat (map slot_bytes slots)))))"
proof (intro conjI impI)
  assume "\<exists>i < length chunks. unit_fails sha256 sv (chunks ! i)"
  then have "\<not> (\<forall>i < length chunks. unit_slot sha256 sv (chunks ! i) \<noteq> None)"
    by (simp add: unit_slot_None_iff)
  with fetchChunksParallel_result[OF assms(1), of sha256 sv]
  obtain err where e: "fst (fetchChunksParallel sha256 sv sched chunks) = Inl err"
    by auto
  then obtain t3 where "fetchChunksParallel sha256 sv sched chunks = (Inl err, t3)"
    by (cases "fetchChunksParallel sha256 sv sched chunks") auto
  then have "fst (ServeHTTP_read sha256 sv sched fileID) =
      Response StatusInternalServerError (Text (''failed to fetch chunks: '' @ err))"
    by (simp add: read_after_plan[OF assms(2-4)])
  with e show "\<exists>err. fst (fetchChunksParallel sha256 sv sched chunks) = Inl err
      \<and> fst (ServeHTTP_read sha256 sv sched fileID) =
           Response StatusInternalServerError (Text (''failed to fetch chunks: '' @ err))"
    by blast
next
  let ?slots = "map (unit_slot sha256 sv) chunks"
  assume ok: "\<forall>i < length chunks. \<not> unit_fails sha256 sv (chunks ! i)"
  then have all: "\<forall>i < length chunks. unit_slot sha256 sv (chunks ! i) \<noteq> None"
    by (simp add: unit_slot_None_iff)
  with fetchChunksParallel_result[OF assms(1), of sha256 sv]
  have r: "fst (fetchChunksParallel sha256 sv sched chunks) = Inr ?slots"
    by simp
  then obtain t3 where "fetchChunksParallel sha256 sv sched chunks = (Inr ?slots, t3)"
    by (cases "fetchChunksParallel sha256 sv sched chunks") auto
  then have resp: "fst (ServeHTTP_read sha256 sv sched fileID) =
      Response StatusOK (Bytes (concat (map slot_bytes ?slots)))"
    by (simp add: read_after_plan[OF assms(2-4)] reassembleFile_slots)
  have pop: "\<exists>data. ?slots ! i = Some data
      \<and> fst (DownloadChunk sv (cMinioObjectKey (chunks ! i))) = Inr data
      \<and> VerifyChunkHash sha256 data (cHash (chunks ! i))" if "i < length chunks" for i
  proof -
    from all that obtain data where "unit_slot sha256 sv (chunks ! i) = Some data" by auto
    then show ?thesis using that by (simp add: unit_slot_Some_iff)
  qed
  show "\<exists>slots. fst (fetchChunksParallel sha256 sv sched chunks) = Inr slots
      \<and> length slots = length chunks
      \<and> (\<forall>i < length chunks. \<exists>data. slots ! i = Some data
            \<and> fst (DownloadChunk sv (cMinioObjectKey (chunks ! i))) = Inr data
            \<and> VerifyChunkHash sha256 data (cHash (chunks ! i)))
      \<and> fst (ServeHTTP_read sha256 sv sched fileID) =
           Response StatusOK (Bytes (concat (map slot_bytes slots)))"
    using r resp pop by (intro exI[of _ ?slots]) simp
qed

theorem read_fails_iff_a_unit_fails_witness:
  "(\<exists>err. fst (fetchChunksParallel test_digest (corrupted_services [demo_chunk0, demo_chunk1])
                  [1, 0] [demo_chunk0, demo_chunk1]) = Inl err
        \<and> fst (ServeHTTP_read test_digest (corrupted_services [demo_chunk0, demo_chunk1])
                  [1, 0] ''abc'') =
             Response StatusInternalServerError (Text (''failed to fetch chunks: '' @ err)))
   \<and> (\<exists>slots. fst (fetchChunksParallel test_digest (demo_services [demo_chunk0, demo_chunk1])
                  [1, 0] [demo_chunk0, demo_chunk1]) = Inr slots
        \<and> fst (ServeHTTP_read test_digest (demo_services [demo_chunk0, demo_chunk1])
                  [1, 0] ''abc'') =
             Response StatusOK (Bytes (concat (map slot_bytes slots))))"
proof -
  have ne: "''abc'' \<noteq> []" by simp
  have bad: "\<exists>i < length [demo_chunk0, demo_chunk1].
      unit_fails test_digest (corrupted_services [demo_chunk0, demo_chunk1])
        ([demo_chunk0, demo_chunk1] ! i)"
    using demo_units(3) by (intro exI[of _ 1]) simp
  have good: "\<forall>i < length [demo_chunk0, demo_chunk1].
      \<not> unit_fails test_digest (demo_services [demo_chunk0, demo_chunk1])
        ([demo_chunk0, demo_chunk1] ! i)"
    using demo_units(1,2) by (simp add: less_Suc_eq)
  from read_fails_iff_a_unit_fails[OF demo_schedule(1) ne demo_metadata(3) demo_metadata(4),
      of test_digest] bad
  have 1: "\<exists>err. fst (fetchChunksParallel test_digest (corrupted_services [demo_chunk0, demo_chunk1])
                  [1, 0] [demo_chunk0, demo_chunk1]) = Inl err
        \<and> fst (ServeHTTP_read test_digest (corrupted_services [demo_chunk0, demo_chunk1])
                  [1, 0] ''abc'') =
             Response StatusInternalServerError (Text (''failed to fetch chunks: '' @ err))"
    by blast
  from read_fails_iff_a_unit_fails[OF demo_schedule(1) ne demo_metadata(1) demo_metadata(2),
      of test_digest] good
  have 2: "\<exists>slots. fst (fetchChunksParallel test_digest (demo_services [demo_chunk0, demo_chunk1])
                  [1, 0] [demo_chunk0, demo_chunk1]) = Inr slots
        \<and> fst (ServeHTTP_read test_digest (demo_services [demo_chunk0, demo_chunk1])
                  [1, 0] ''abc'') =
             Response StatusOK (Bytes (concat (map slot_bytes slots)))"
    by blast
  from 1 2 show ?thesis by blast
qed

text \<open>
  Claim C9. For every fetch plan and every two completion orders of its units, the slice of
  result slots after all units have finished is the same, and so is what \<open>reassembleFile\<close>
  makes of it; \<open>fetchChunksParallel\<close> fails under both orders or returns the same slice
  under both.
\<close>

theorem completion_order_independent:
  assumes "is_schedule sched1 (length chunkMetadata)"
    and "is_schedule sched2 (length chunkMetadata)"
  shows "fst (fetchUnits sha256 sv sched1 chunkMetadata) =
           fst (fetchUnits sha256 sv sched2 chunkMetadata)
       \<and> reassembleFile (fst (fetchUnits sha256 sv sched1 chunkMetadata)) =
           reassembleFile (fst (fetchUnits sha256 sv sched2 chunkMetadata))
       \<and> map_sum (\<lambda>err. ()) reassembleFile
             (fst (fetchChunksParallel sha256 sv sched1 chunkMetadata)) =
           map_sum (\<lambda>err. ()) reassembleFile
             (fst (fetchChunksParallel sha256 sv sched2 chunkMetadata))"
  by (simp add: fetchUnits_slots[OF assms(1)] fetchUnits_slots[OF assms(2)]
        fetchChunksParallel_result[OF assms(1)] fetchChunksParallel_result[OF assms(2)])

theorem completion_order_independent_witness:
  "fst (fetchUnits test_digest (demo_services [demo_chunk0, demo_chunk1]) [0, 1]
          [demo_chunk0, demo_chunk1]) =
     fst (fetchUnits test_digest (demo_services [demo_chunk0, demo_chunk1]) [1, 0]
          [demo_chunk0, demo_chunk1])
   \<and> reassembleFile (fst (fetchUnits test_digest (demo_services [demo_chunk0, demo_chunk1]) [0, 1]
          [demo_chunk0, demo_chunk1])) = [1, 2, 3]
   \<and> reassembleFile (fst (fetchUnits test_digest (demo_services [demo_chunk0, demo_chunk1]) [1, 0]
          [demo_chunk0, demo_chunk1])) = [1, 2, 3]"
proof -
  have "reassembleFile (fst (fetchUnits test_digest (demo_services [demo_chunk0, demo_chunk1])
          [0, 1] [demo_chunk0, demo_chunk1])) = [1, 2, 3]"
    by (simp add: read_defs double_defs)
  with completion_order_independent[OF demo_schedule(2) demo_schedule(1), of test_digest
      "demo_services [demo_chunk0, demo_chunk1]"]
  show ?thesis by simp
qed

text \<open>
  Claim C4, as amended. The read handler does not compare the length of the chunk list with
  the file record's \<open>ChunkCount\<close>. When they differ the read goes on: it asks MinIO for
  every listed chunk, and it answers 200 with the listed chunks' bytes when every unit
  succeeds, and 500 with the error of a failing unit otherwise.
\<close>

theorem read_tolerates_count_mismatch:
  assumes "fileID \<noteq> []"
    and "getFileMetadata sv fileID = (Inr (Some file), t1)"
    and "getChunkMetadata sv fileID = (Inr chunks, t2)"
    and "int (length chunks) \<noteq> fChunkCount file"
    and "is_schedule sched (length chunks)"
  shows "snd (ServeHTTP_read sha256 sv sched fileID) =
           t1 @ t2 @ map (\<lambda>idx. MinioGetObject (cMinioObjectKey (chunks ! idx))) sched
       \<and> (\<forall>i < length chunks.
             MinioGetObject (cMinioObjectKey (chunks ! i))
               \<in> set (snd (ServeHTTP_read sha256 sv sched fileID)))
       \<and> ((\<forall>i < length chunks. \<not> unit_fails sha256 sv (chunks ! i)) \<longrightarrow>
             fst (ServeHTTP_read sha256 sv sched fileID) =
               Response StatusOK
                 (Bytes (concat (map (\<lambda>c. slot_bytes (unit_slot sha256 sv c)) chunks))))
       \<and> ((\<exists>i < length chunks. unit_fails sha256 sv (chunks ! i)) \<longrightarrow>
             (\<exists>i < length chunks. unit_fails sha256 sv (chunks ! i) \<and>
                fst (ServeHTTP_read sha256 sv sched fileID) =
                  Response StatusInternalServerError
                    (Text (''failed to fetch chunks: '' @ unit_error sv i (chunks ! i)))))"
proof (intro conjI impI allI)
  show tr: "snd (ServeHTTP_read sha256 sv sched fileID) =
      t1 @ t2 @ map (\<lambda>idx. MinioGetObject (cMinioObjectKey (chunks ! idx))) sched"
    by (rule read_trace_after_plan[OF assms(1-3)])
  fix i
  assume "i < length chunks"
  then have "i \<in> set sched" using assms(5) by (simp add: is_schedule_def)
  then show "MinioGetObject (cMinioObjectKey (chunks ! i))
      \<in> set (snd (ServeHTTP_read sha256 sv sched fileID))"
    unfolding tr by simp
next
  assume "\<forall>i < length chunks. \<not> unit_fails sha256 sv (chunks ! i)"
  then have "\<forall>i < length chunks. unit_slot sha256 sv (chunks ! i) \<noteq> None"
    by (simp add: unit_slot_None_iff)
  with fetchChunksParallel_result[OF assms(5), of sha256 sv]
  have "fst (fetchChunksParallel sha256 sv sched chunks) = Inr (map (unit_slot sha256 sv) chunks)"
    by simp
  then show "fst (ServeHTTP_read sha256 sv sched fileID) =
      Response StatusOK (Bytes (concat (map (\<lambda>c. slot_bytes (unit_slot sha256 sv c)) chunks)))"
    by (cases "fetchChunksParallel sha256 sv sched chunks")
       (simp add: read_after_plan[OF assms(1-3)] reassembleFile_slots comp_def)
next
  assume bad: "\<exists>i < length chunks. unit_fails sha256 sv (chunks ! i)"
  obtain slots errs tr where st: "fetchUnits sha256 sv sched chunks = (slots, errs, tr)"
    by (cases "fetchUnits sha256 sv sched chunks") auto
  let ?failing = "filter (\<lambda>idx. unit_slot sha256 sv (chunks ! idx) = None) sched"
  from fold_errs[of sha256 sv chunks "(replicate (length chunks) None, [], [])" sched] st
  have errs: "errs = map (\<lambda>idx. unit_error sv idx (chunks ! idx)) ?failing"
    by (simp add: fetchUnits_def)
  from bad assms(5) have "\<exists>idx \<in> set sched. unit_slot sha256 sv (chunks ! idx) = None"
    by (auto simp add: is_schedule_def unit_slot_None_iff)
  then have ne: "?failing \<noteq> []" by (simp add: filter_empty_conv)
  then have "hd ?failing \<in> set ?failing" by (rule hd_in_set)
  then have "hd ?failing \<in> set sched \<and> unit_slot sha256 sv (chunks ! hd ?failing) = None"
    unfolding set_filter by blast
  then have h: "hd ?failing \<in> set sched" "unit_fails sha256 sv (chunks ! hd ?failing)"
    by (simp_all add: unit_slot_None_iff)
  then have lt: "hd ?failing < length chunks" using assms(5) by (simp add: is_schedule_def)
  have "errs \<noteq> []" "hd errs = unit_error sv (hd ?failing) (chunks ! hd ?failing)"
    using ne by (simp_all add: errs hd_map)
  then have "fst (ServeHTTP_read sha256 sv sched fileID) =
      Response StatusInternalServerError
        (Text (''failed to fetch chunks: '' @ unit_error sv (hd ?failing) (chunks ! hd ?failing)))"
    by (simp add: read_after_plan[OF assms(1-3)] fetchChunksParallel_def st)
  with lt h(2) show "\<exists>i < length chunks. unit_fails sha256 sv (chunks ! i) \<and>
      fst (ServeHTTP_read sha256 sv sched fileID) =
        Response StatusInternalServerError
          (Text (''failed to fetch chunks: '' @ unit_error sv i (chunks ! i)))"
    by blast
qed

theorem read_tolerates_count_mismatch_witness:
  "fst (ServeHTTP_read test_digest (demo_services [demo_chunk0]) [0] ''abc'') =
       Response StatusOK (Bytes [1, 2])
   \<and> MinioGetObject ''chunks/abc/0''
       \<in> set (snd (ServeHTTP_read test_digest (demo_services [demo_chunk0]) [0] ''abc''))
   \<and> fst (ServeHTTP_read test_digest (corrupted_services [demo_chunk1]) [0] ''abc'') =
       Response StatusInternalServerError
         (Text ''failed to fetch chunks: hash mismatch for chunk 0'')"
proof -
  have ne: "''abc'' \<noteq> []" by simp
  have mm0: "int (length [demo_chunk0]) \<noteq> fChunkCount demo_file"
    and mm1: "int (length [demo_chunk1]) \<noteq> fChunkCount demo_file"
    by (simp_all add: demo_file_def)
  have s0: "is_schedule [0] (length [demo_chunk0])"
    and s1: "is_schedule [0] (length [demo_chunk1])"
    by (simp_all add: is_schedule_def)
  have good: "\<forall>i < length [demo_chunk0].
      \<not> unit_fails test_digest (demo_services [demo_chunk0]) ([demo_chunk0] ! i)"
    using demo_units(1) by simp
  have data: "concat (map (\<lambda>c. slot_bytes (unit_slot test_digest (demo_services [demo_chunk0]) c))
      [demo_chunk0]) = [1, 2]"
    by (simp add: read_defs double_defs)
  have key: "cMinioObjectKey ([demo_chunk0] ! 0) = ''chunks/abc/0''"
    by (simp add: demo_chunk0_def)
  have bad: "\<exists>i < length [demo_chunk1].
      unit_fails test_digest (corrupted_services [demo_chunk1]) ([demo_chunk1] ! i)"
    using demo_units(3) by simp
  have msg: "unit_error (corrupted_services [demo_chunk1]) i ([demo_chunk1] ! i) =
      ''hash mismatch for chunk 0''" if "i < length [demo_chunk1]" for i
    using that by (simp add: read_defs double_defs)
  note a = read_tolerates_count_mismatch[OF ne demo_metadata(1) demo_metadata(2) mm0 s0,
      of test_digest]
  note b = read_tolerates_count_mismatch[OF ne demo_metadata(3) demo_metadata(4) mm1 s1,
      of test_digest]
  from a good data have 1: "fst (ServeHTTP_read test_digest (demo_services [demo_chunk0]) [0] ''abc'') =
       Response StatusOK (Bytes [1, 2])"
    by simp
  from a key have 2: "MinioGetObject ''chunks/abc/0''
       \<in> set (snd (ServeHTTP_read test_digest (demo_services [demo_chunk0]) [0] ''abc''))"
    by (metis length_Cons less_Suc_eq list.size(3))
  from b bad obtain i where i: "i < length [demo_chunk1]"
    and r: "fst (ServeHTTP_read test_digest (corrupted_services [demo_chunk1]) [0] ''abc'') =
       Response StatusInternalServerError
         (Text (''failed to fetch chunks: ''
            @ unit_error (corrupted_services [demo_chunk1]) i ([demo_chunk1] ! i)))"
    by blast
  have 3: "fst (ServeHTTP_read test_digest (corrupted_services [demo_chunk1]) [0] ''abc'') =
       Response StatusInternalServerError
         (Text ''failed to fetch chunks: hash mismatch for chunk 0'')"
    unfolding r msg[OF i] by simp
  from 1 2 3 show ?thesis by blast
qed

text \<open>
  Claim C4 as stated fails here: the file record counts two chunks, the chunk query returns
  one row, and the read fetches that chunk from MinIO and answers 200 with its bytes.
\<close>

theorem count_mismatch_counterexample:
  "fChunkCount demo_file = 2
   \<and> getChunkMetadata (demo_services [demo_chunk0]) ''abc'' =
       (Inr [demo_chunk0], [SqlQueryChunks ''abc''])
   \<and> ServeHTTP_read test_digest (demo_services [demo_chunk0]) [0] ''abc'' =
       (Response StatusOK (Bytes [1, 2]),
        [RedisGet ''file:abc'', SqlQueryRowFile ''abc'', RedisSet ''file:abc'' ''{id:abc}'' 300,
         SqlQueryChunks ''abc'', MinioGetObject ''chunks/abc/0''])"
  by (simp add: read_defs double_defs)

section \<open>The read handler: a file that is not stored\<close>

lemma getFileMetadata_never_nil: "fst (getFileMetadata sv fileID) \<noteq> Inr None"
  by (simp add: getFileMetadata_def GetFileMetadata_def GetFile_def SetFileMetadata_def
        split: redis_reply.splits sum.splits sql_row.splits option.splits prod.splits)

lemma read_never_not_found:
  "status (fst (ServeHTTP_read sha256 sv sched fileID)) \<noteq> StatusNotFound"
proof -
  obtain r t1 where m: "getFileMetadata sv fileID = (r, t1)"
    by (cases "getFileMetadata sv fileID") auto
  with getFileMetadata_never_nil[of sv fileID] have "r \<noteq> Inr None" by simp
  then show ?thesis
    by (simp add: ServeHTTP_read_def m status_defs split: sum.splits option.splits prod.splits)
qed

lemma read_unknown_file:
  assumes "fileID \<noteq> []"
    and "redisGet sv (''file:'' @ fileID) = RedisNil"
    and "sqlQueryRowFile sv fileID = ErrNoRows"
  shows "ServeHTTP_read sha256 sv sched fileID =
           (Response StatusInternalServerError
              (Text (''failed to get file metadata: file not found: '' @ fileID)),
            [RedisGet (''file:'' @ fileID), SqlQueryRowFile fileID])"
  using assms
  by (simp add: ServeHTTP_read_def getFileMetadata_def GetFileMetadata_def GetFile_def)

lemma read_store_failure:
  assumes "fileID \<noteq> []"
    and "redisGet sv (''file:'' @ fileID) = RedisNil"
    and "sqlQueryRowFile sv fileID = ScanErr e"
  shows "ServeHTTP_read sha256 sv sched fileID =
           (Response StatusInternalServerError
              (Text (''failed to get file metadata: failed to query file: '' @ e)),
            [RedisGet (''file:'' @ fileID), SqlQueryRowFile fileID])"
  using assms
  by (simp add: ServeHTTP_read_def getFileMetadata_def GetFileMetadata_def GetFile_def)

text \<open>
  Claim C3. The code does not meet it. For a file id with no cache entry and no row in
  \<open>files\<close>, \<open>GetFile\<close> returns an error, so the handler answers 500, the status of
  every other failure of the lookup (here: a database that refuses the connection), and not
  404; the handler's 404 branch is never taken (\<open>read_never_not_found\<close>). No MinIO call
  is made.
\<close>

theorem unknown_file_is_internal_error:
  "ServeHTTP_read test_digest empty_services [] ''abc'' =
     (Response StatusInternalServerError
        (Text ''failed to get file metadata: file not found: abc''),
      [RedisGet ''file:abc'', SqlQueryRowFile ''abc''])
   \<and> status (fst (ServeHTTP_read test_digest empty_services [] ''abc'')) \<noteq> StatusNotFound
   \<and> status (fst (ServeHTTP_read test_digest empty_services [] ''abc'')) =
       status (fst (ServeHTTP_read test_digest
                      (empty_services\<lparr>sqlQueryRowFile := (\<lambda>fileID. ScanErr ''connection refused'')\<rparr>)
                      [] ''abc''))"
  by (simp add: read_defs double_defs status_defs)

section \<open>The read handler: cache-aside lookup of the file record\<close>

lemma fetch_trace_no_file_query:
  "SqlQueryRowFile x \<notin> set (snd (fetchChunksParallel sha256 sv sched chunks))"
  by (auto simp add: fetchChunksParallel_trace)

lemma GetFileMetadata_trace: "snd (GetFileMetadata sv fileID) = [RedisGet (''file:'' @ fileID)]"
  by (simp add: GetFileMetadata_def Let_def)

lemma GetFile_trace: "snd (GetFile sv fileID) = [SqlQueryRowFile fileID]"
  by (simp add: GetFile_def)

lemma GetFileMetadata_pair:
  "GetFileMetadata sv fileID = (fst (GetFileMetadata sv fileID), [RedisGet (''file:'' @ fileID)])"
  by (metis GetFileMetadata_trace prod.collapse)

lemma SetFileMetadata_trace:
  "snd (SetFileMetadata sv fileID file) =
     (case jsonMarshal sv file of
        Inl e \<Rightarrow> []
      | Inr data \<Rightarrow> [RedisSet (''file:'' @ fileID) data CacheTTL])"
  by (simp add: SetFileMetadata_def Let_def split: sum.splits)

lemma read_hit:
  assumes "fst (GetFileMetadata sv fileID) = Inr (Some file)"
  shows "getFileMetadata sv fileID = (Inr (Some file), [RedisGet (''file:'' @ fileID)])"
  using assms GetFileMetadata_pair[of sv fileID]
  by (simp add: getFileMetadata_def)

lemma read_hit_no_file_query:
  assumes "fst (GetFileMetadata sv fileID) = Inr (Some file)"
  shows "SqlQueryRowFile x \<notin> set (snd (ServeHTTP_read sha256 sv sched fileID))"
proof (cases "fileID = []")
  case True
  then show ?thesis by (simp add: ServeHTTP_read_def)
next
  case False
  obtain r t2 where c: "getChunkMetadata sv fileID = (r, t2)"
    by (cases "getChunkMetadata sv fileID") auto
  then have t2: "t2 = [SqlQueryChunks fileID]"
    by (auto simp add: getChunkMetadata_def GetChunks_def)
  show ?thesis
  proof (cases r)
    case (Inl err)
    then show ?thesis
      using False c t2 by (simp add: ServeHTTP_read_def read_hit[OF assms])
  next
    case (Inr chunks)
    with c have c': "getChunkMetadata sv fileID = (Inr chunks, t2)" by simp
    show ?thesis
      using t2 by (auto simp add: read_trace_after_plan[OF False read_hit[OF assms] c'])
  qed
qed

lemma read_miss:
  assumes "fst (GetFileMetadata sv fileID) = Inr None"
  shows "take 2 (snd (getFileMetadata sv fileID)) =
           [RedisGet (''file:'' @ fileID), SqlQueryRowFile fileID]"
proof -
  from assms GetFileMetadata_pair[of sv fileID]
  have g: "GetFileMetadata sv fileID = (Inr None, [RedisGet (''file:'' @ fileID)])" by simp
  show ?thesis
    by (simp add: getFileMetadata_def g GetFile_def split: sql_row.splits prod.splits)
qed

lemma read_miss_found:
  assumes "fst (GetFileMetadata sv fileID) = Inr None"
    and "sqlQueryRowFile sv fileID = Row file"
  shows "getFileMetadata sv fileID =
           (Inr (Some file),
            [RedisGet (''file:'' @ fileID), SqlQueryRowFile fileID]
              @ (case jsonMarshal sv file of
                   Inl e \<Rightarrow> []
                 | Inr data \<Rightarrow> [RedisSet (''file:'' @ fileID) data CacheTTL]))"
proof -
  from assms(1) GetFileMetadata_pair[of sv fileID]
  have g: "GetFileMetadata sv fileID = (Inr None, [RedisGet (''file:'' @ fileID)])" by simp
  obtain r t3 where s: "SetFileMetadata sv fileID file = (r, t3)"
    by (cases "SetFileMetadata sv fileID file") auto
  with SetFileMetadata_trace[of sv fileID "file"]
  have "t3 = (case jsonMarshal sv file of
                Inl e \<Rightarrow> []
              | Inr data \<Rightarrow> [RedisSet (''file:'' @ fileID) data CacheTTL])"
    by simp
  then show ?thesis
    by (simp add: getFileMetadata_def g GetFile_def assms(2) s)
qed

lemma read_proceeds:
  assumes "fileID \<noteq> []"
    and "getFileMetadata sv fileID = (Inr (Some file), t1)"
  shows "SqlQueryChunks fileID \<in> set (snd (ServeHTTP_read sha256 sv sched fileID))"
proof -
  obtain r t2 where c: "getChunkMetadata sv fileID = (r, t2)"
    by (cases "getChunkMetadata sv fileID") auto
  then have t2: "t2 = [SqlQueryChunks fileID]"
    by (auto simp add: getChunkMetadata_def GetChunks_def)
  show ?thesis
  proof (cases r)
    case (Inl err)
    then show ?thesis
      using assms c t2 by (simp add: ServeHTTP_read_def)
  next
    case (Inr chunks)
    with c have c': "getChunkMetadata sv fileID = (Inr chunks, t2)" by simp
    show ?thesis
      using t2 by (simp add: read_trace_after_plan[OF assms c'])
  qed
qed

text \<open>
  Claim C8. When the cache returns a file record, \<open>getFileMetadata\<close> makes no other
  call than the cache lookup, and the whole read never queries the \<open>files\<close> table. When the
  cache misses, the \<open>files\<close> table is queried next; if the row exists, the record is
  returned whatever the cache write does, the cache write is a \<open>SET\<close> of the marshalled
  record with the fixed TTL of 300 seconds (none is sent when marshalling fails), and the
  read goes on to the chunk query.
\<close>

theorem cache_aside_resolution:
  "(fst (GetFileMetadata sv fileID) = Inr (Some file) \<longrightarrow>
      getFileMetadata sv fileID = (Inr (Some file), [RedisGet (''file:'' @ fileID)])
      \<and> (\<forall>x. SqlQueryRowFile x \<notin> set (snd (ServeHTTP_read sha256 sv sched fileID))))
   \<and> (fst (GetFileMetadata sv fileID) = Inr None \<longrightarrow>
      take 2 (snd (getFileMetadata sv fileID)) =
        [RedisGet (''file:'' @ fileID), SqlQueryRowFile fileID]
      \<and> (sqlQueryRowFile sv fileID = Row file \<longrightarrow>
           getFileMetadata sv fileID =
             (Inr (Some file),
              [RedisGet (''file:'' @ fileID), SqlQueryRowFile fileID]
                @ (case jsonMarshal sv file of
                     Inl e \<Rightarrow> []
                   | Inr data \<Rightarrow> [RedisSet (''file:'' @ fileID) data CacheTTL]))
           \<and> (fileID \<noteq> [] \<longrightarrow>
                SqlQueryChunks fileID \<in> set (snd (ServeHTTP_read sha256 sv sched fileID)))))
   \<and> CacheTTL = 300"
proof (intro conjI impI allI)
  assume hit: "fst (GetFileMetadata sv fileID) = Inr (Some file)"
  show "getFileMetadata sv fileID = (Inr (Some file), [RedisGet (''file:'' @ fileID)])"
    by (rule read_hit[OF hit])
  show "SqlQueryRowFile x \<notin> set (snd (ServeHTTP_read sha256 sv sched fileID))" for x
    by (rule read_hit_no_file_query[OF hit])
next
  assume miss: "fst (GetFileMetadata sv fileID) = Inr None"
  show "take 2 (snd (getFileMetadata sv fileID)) =
      [RedisGet (''file:'' @ fileID), SqlQueryRowFile fileID]"
    by (rule read_miss[OF miss])
  assume row: "sqlQueryRowFile sv fileID = Row file"
  show m: "getFileMetadata sv fileID =
      (Inr (Some file),
       [RedisGet (''file:'' @ fileID), SqlQueryRowFile fileID]
         @ (case jsonMarshal sv file of
              Inl e \<Rightarrow> []
            | Inr data \<Rightarrow> [RedisSet (''file:'' @ fileID) data CacheTTL]))"
    by (rule read_miss_found[OF miss row])
  assume "fileID \<noteq> []"
  then show "SqlQueryChunks fileID \<in> set (snd (ServeHTTP_read sha256 sv sched fileID))"
    by (rule read_proceeds[OF _ m])
next
  show "CacheTTL = 300" by (simp add: CacheTTL_def)
qed

theorem cache_aside_resolution_witness:
  "getFileMetadata (cached_services [demo_chunk0, demo_chunk1]) ''abc'' =
     (Inr (Some demo_file), [RedisGet ''file:abc''])
   \<and> SqlQueryRowFile ''abc''
       \<notin> set (snd (ServeHTTP_read test_digest (cached_services [demo_chunk0, demo_chunk1])
                      [1, 0] ''abc''))
   \<and> getFileMetadata (demo_services [demo_chunk0, demo_chunk1]) ''abc'' =
       (Inr (Some demo_file),
        [RedisGet ''file:abc'', SqlQueryRowFile ''abc'', RedisSet ''file:abc'' ''{id:abc}'' 300])
   \<and> getFileMetadata
         (demo_services [demo_chunk0, demo_chunk1]
            \<lparr>redisSet := (\<lambda>key data ttl. Some ''connection refused'')\<rparr>) ''abc'' =
       (Inr (Some demo_file),
        [RedisGet ''file:abc'', SqlQueryRowFile ''abc'', RedisSet ''file:abc'' ''{id:abc}'' 300])
   \<and> SqlQueryChunks ''abc''
       \<in> set (snd (ServeHTTP_read test_digest
                      (demo_services [demo_chunk0, demo_chunk1]
                         \<lparr>redisSet := (\<lambda>key data ttl. Some ''connection refused'')\<rparr>)
                      [1, 0] ''abc''))"
proof -
  let ?hit = "cached_services [demo_chunk0, demo_chunk1]"
  let ?miss = "demo_services [demo_chunk0, demo_chunk1]"
  let ?down = "?miss\<lparr>redisSet := (\<lambda>key data ttl. Some ''connection refused'')\<rparr>"
  have h: "fst (GetFileMetadata ?hit ''abc'') = Inr (Some demo_file)"
    by (simp add: GetFileMetadata_def double_defs)
  have m: "fst (GetFileMetadata ?miss ''abc'') = Inr None"
    "fst (GetFileMetadata ?down ''abc'') = Inr None"
    by (simp_all add: GetFileMetadata_def double_defs)
  have row: "sqlQueryRowFile ?miss ''abc'' = Row demo_file"
    "sqlQueryRowFile ?down ''abc'' = Row demo_file"
    by (simp_all add: double_defs)
  have js: "jsonMarshal ?miss demo_file = Inr ''{id:abc}''"
    "jsonMarshal ?down demo_file = Inr ''{id:abc}''"
    by (simp_all add: double_defs)
  have ne: "''abc'' \<noteq> []" by simp
  from cache_aside_resolution[of ?hit "''abc''" demo_file test_digest "[1, 0]"] h
  have 1: "getFileMetadata ?hit ''abc'' = (Inr (Some demo_file), [RedisGet ''file:abc''])"
    and 2: "SqlQueryRowFile ''abc'' \<notin> set (snd (ServeHTTP_read test_digest ?hit [1, 0] ''abc''))"
    by simp_all
  from cache_aside_resolution[of ?miss "''abc''" demo_file test_digest "[1, 0]"] m(1) row(1)
  have 3: "getFileMetadata ?miss ''abc'' =
       (Inr (Some demo_file),
        [RedisGet ''file:abc'', SqlQueryRowFile ''abc'', RedisSet ''file:abc'' ''{id:abc}'' 300])"
    by (simp add: js)
  from cache_aside_resolution[of ?down "''abc''" demo_file test_digest "[1, 0]"] m(2) row(2) ne
  have 4: "getFileMetadata ?down ''abc'' =
       (Inr (Some demo_file),
        [RedisGet ''file:abc'', SqlQueryRowFile ''abc'', RedisSet ''file:abc'' ''{id:abc}'' 300])"
    and 5: "SqlQueryChunks ''abc'' \<in> set (snd (ServeHTTP_read test_digest ?down [1, 0] ''abc''))"
    by (simp_all add: js)
  from 1 2 3 4 5 show ?thesis by blast
qed


section \<open>The write handler\<close>

lemma uploads_append [simp]: "uploads (xs @ ys) = uploads xs @ uploads ys"
  by (induction xs rule: uploads.induct) simp_all

lemma inserted_chunks_append [simp]:
  "inserted_chunks (xs @ ys) = inserted_chunks xs @ inserted_chunks ys"
  by (induction xs rule: inserted_chunks.induct) simp_all

lemma uploads_puts [simp]:
  "uploads (map (\<lambda>c. MinioPutObject (f c) (g c)) cs) = map (\<lambda>c. (f c, g c)) cs"
  by (induction cs) simp_all

lemma inserted_chunks_puts [simp]:
  "inserted_chunks (map (\<lambda>c. MinioPutObject (f c) (g c)) cs) = []"
  by (induction cs) simp_all

lemma inserted_chunks_inserts [simp]: "inserted_chunks (map SqlInsertChunk cs) = cs"
  by (induction cs) simp_all

lemma uploads_inserts [simp]: "uploads (map SqlInsertChunk cs) = []"
  by (induction cs) simp_all

lemma uploadChunks_loop_step:
  "uploadChunks_loop sv uuid k fileID (c # rest) acc =
     (case minioPutObject sv (object_key fileID c) (Data c) of
        Some e \<Rightarrow>
          (Inl (''failed to upload chunk '' @ Sprintf_d (OrderIndex c) @ '': ''
                  @ ''failed to upload chunk: '' @ e),
           [MinioPutObject (object_key fileID c) (Data c)])
      | None \<Rightarrow>
          (fst (uploadChunks_loop sv uuid (k + 1) fileID rest
                  (acc @ [chunk_model fileID (uuid k) c])),
           MinioPutObject (object_key fileID c) (Data c)
             # snd (uploadChunks_loop sv uuid (k + 1) fileID rest
                      (acc @ [chunk_model fileID (uuid k) c]))))"
  by (simp add: UploadChunk_def object_key_def chunk_model_def Let_def
        split: option.splits prod.splits)

declare uploadChunks_loop.simps(2) [simp del]

lemma uploadChunks_loop_trace:
  "snd (uploadChunks_loop sv uuid k fileID chunks acc) =
     map (\<lambda>c. MinioPutObject (object_key fileID c) (Data c))
       (takeWhile (\<lambda>c. minioPutObject sv (object_key fileID c) (Data c) = None) chunks
        @ take 1 (dropWhile (\<lambda>c. minioPutObject sv (object_key fileID c) (Data c) = None) chunks))"
proof (induction chunks arbitrary: k acc)
  case Nil
  then show ?case by simp
next
  case (Cons c rest)
  show ?case
    by (cases "minioPutObject sv (object_key fileID c) (Data c)")
       (simp_all add: uploadChunks_loop_step Cons.IH)
qed

lemma uploadChunks_loop_succeeds_iff:
  "(\<exists>models. fst (uploadChunks_loop sv uuid k fileID chunks acc) = Inr models) \<longleftrightarrow>
     (\<forall>c \<in> set chunks. minioPutObject sv (object_key fileID c) (Data c) = None)"
proof (induction chunks arbitrary: k acc)
  case Nil
  then show ?case by simp
next
  case (Cons c rest)
  show ?case
    by (cases "minioPutObject sv (object_key fileID c) (Data c)")
       (simp_all add: uploadChunks_loop_step Cons.IH)
qed

lemma uploadChunks_loop_trace_all:
  assumes "fst (uploadChunks_loop sv uuid k fileID chunks acc) = Inr models"
  shows "snd (uploadChunks_loop sv uuid k fileID chunks acc) =
           map (\<lambda>c. MinioPutObject (object_key fileID c) (Data c)) chunks"
proof -
  from assms uploadChunks_loop_succeeds_iff[of sv uuid k fileID chunks acc]
  have all: "\<forall>c \<in> set chunks. minioPutObject sv (object_key fileID c) (Data c) = None"
    by blast
  then have tw: "takeWhile (\<lambda>c. minioPutObject sv (object_key fileID c) (Data c) = None) chunks = chunks"
    and dw: "dropWhile (\<lambda>c. minioPutObject sv (object_key fileID c) (Data c) = None) chunks = []"
    by simp_all
  show ?thesis unfolding uploadChunks_loop_trace tw dw by simp
qed

lemma uploadChunks_loop_models:
  "fst (uploadChunks_loop sv uuid k fileID chunks acc) = Inr models \<Longrightarrow>
     models = acc @ map (\<lambda>(j, c). chunk_model fileID (uuid j) c) (List.enumerate k chunks)"
proof (induction chunks arbitrary: k acc)
  case Nil
  then show ?case by simp
next
  case (Cons c rest)
  from Cons.prems have put: "minioPutObject sv (object_key fileID c) (Data c) = None"
    by (simp add: uploadChunks_loop_step split: option.splits)
  with Cons.prems have "fst (uploadChunks_loop sv uuid (k + 1) fileID rest
      (acc @ [chunk_model fileID (uuid k) c])) = Inr models"
    by (simp add: uploadChunks_loop_step)
  from Cons.IH[OF this] show ?case
    by simp
qed

lemma models_keys_hashes:
  assumes "models = map (\<lambda>(j, c). chunk_model fileID (uuid j) c) (List.enumerate k chunks)"
  shows "length models = length chunks"
    and "i < length chunks \<Longrightarrow> cMinioObjectKey (models ! i) = object_key fileID (chunks ! i)"
    and "i < length chunks \<Longrightarrow> cHash (models ! i) = Hash (chunks ! i)"
  using assms by (simp_all add: chunk_model_def nth_enumerate_eq)

lemma createChunks_trace:
  "fst (createChunks sv chunks) = None \<Longrightarrow> snd (createChunks sv chunks) = map SqlInsertChunk chunks"
  by (induction chunks)
     (auto simp add: CreateChunk_def split: option.splits prod.splits)

lemma createChunks_uploads: "uploads (snd (createChunks sv chunks)) = []"
  by (induction chunks)
     (auto simp add: CreateChunk_def split: option.splits prod.splits)

lemma saveMetadata_trace:
  "fst (saveMetadata sv file chunks) = None \<Longrightarrow>
     snd (saveMetadata sv file chunks) = SqlInsertFile file # map SqlInsertChunk chunks"
  using createChunks_trace[of sv chunks]
  by (auto simp add: saveMetadata_def CreateFile_def split: option.splits prod.splits)

lemma saveMetadata_uploads: "uploads (snd (saveMetadata sv file chunks)) = []"
  using createChunks_uploads[of sv chunks]
  by (auto simp add: saveMetadata_def CreateFile_def split: option.splits prod.splits)

lemma invalidateCache_trace:
  "snd (invalidateCache sv fileID) = [RedisDel (''file:'' @ fileID)]"
  by (simp add: invalidateCache_def InvalidateFileMetadata_def Let_def)

lemmas write_defs =
  ServeHTTP_write_def uploadChunks_def UploadChunk_def saveMetadata_def CreateFile_def
  CreateChunk_def invalidateCache_def InvalidateFileMetadata_def object_key_def

lemma write_after_chunking:
  assumes "filename \<noteq> []"
    and "ChunkStream sha256 maxAlloc s body = Some (Returns (Inr (chunks, tot)))"
  shows "ServeHTTP_write sha256 maxAlloc s sv uuid now filename body =
     Some (Returns
       (case uploadChunks sv uuid 1 (uuid 0) chunks of
          (Inl err, t1) \<Rightarrow>
            (Response StatusInternalServerError (Text (''failed to upload chunks: '' @ err)), t1)
        | (Inr chunkModels, t1) \<Rightarrow>
            (let file = \<lparr>fID = uuid 0, fName = filename, fSize = tot,
                         fChunkCount = int (length chunks), fCreatedAt = now\<rparr>
             in case saveMetadata sv file chunkModels of
                  (Some err, t2) \<Rightarrow>
                    (Response StatusInternalServerError
                       (Text (''failed to save metadata: '' @ err)), t1 @ t2)
                | (None, t2) \<Rightarrow>
                    (case invalidateCache sv (uuid 0) of
                       (_, t3) \<Rightarrow>
                         (Response StatusCreated
                            (Json \<lparr>FileID = uuid 0, FileName = filename, FileSize = tot,
                                   ChunkCount = int (length chunks),
                                   Message = ''File uploaded successfully''\<rparr>),
                          t1 @ t2 @ t3)))))"
  using assms by (simp add: ServeHTTP_write_def Let_def)

text \<open>
  Claim C2, as amended. For every write and every produced chunk, the object key under which
  that chunk's bytes are uploaded is exactly the string \<open>chunks/{file_id}/{order_index}\<close>,
  the order index in decimal. The upload calls of a write are exactly these, for the
  chunks in order up to and including the first whose upload fails, and for every chunk
  when the write answers 201.
\<close>

theorem write_object_keys:
  assumes "filename \<noteq> []"
    and "ChunkStream sha256 maxAlloc s body = Some (Returns (Inr (chunks, tot)))"
  shows "\<exists>resp tw. ServeHTTP_write sha256 maxAlloc s sv uuid now filename body =
             Some (Returns (resp, tw))
           \<and> uploads tw =
               map (\<lambda>c. (''chunks/'' @ uuid 0 @ ''/'' @ Sprintf_d (OrderIndex c), Data c))
                 (takeWhile
                    (\<lambda>c. minioPutObject sv
                            (''chunks/'' @ uuid 0 @ ''/'' @ Sprintf_d (OrderIndex c)) (Data c) = None)
                    chunks
                  @ take 1
                      (dropWhile
                         (\<lambda>c. minioPutObject sv
                                 (''chunks/'' @ uuid 0 @ ''/'' @ Sprintf_d (OrderIndex c)) (Data c)
                               = None)
                         chunks))
           \<and> (status resp = StatusCreated \<longrightarrow>
                uploads tw =
                  map (\<lambda>c. (''chunks/'' @ uuid 0 @ ''/'' @ Sprintf_d (OrderIndex c), Data c))
                    chunks)"
proof -
  let ?ok = "\<lambda>c. minioPutObject sv (object_key (uuid 0) c) (Data c) = None"
  let ?attempted = "takeWhile ?ok chunks @ take 1 (dropWhile ?ok chunks)"
  obtain r t1 where up: "uploadChunks sv uuid 1 (uuid 0) chunks = (r, t1)"
    by (cases "uploadChunks sv uuid 1 (uuid 0) chunks") auto
  from uploadChunks_loop_trace[of sv uuid 1 "uuid 0" chunks "[]"] up
  have t1: "t1 = map (\<lambda>c. MinioPutObject (object_key (uuid 0) c) (Data c)) ?attempted"
    by (simp add: uploadChunks_def)
  have u1: "uploads t1 = map (\<lambda>c. (object_key (uuid 0) c, Data c)) ?attempted"
    unfolding t1 by (rule uploads_puts)
  have all: "uploads t1 = map (\<lambda>c. (object_key (uuid 0) c, Data c)) chunks"
    if "r = Inr models" for models
  proof -
    from that up have "fst (uploadChunks_loop sv uuid 1 (uuid 0) chunks []) = Inr models"
      by (simp add: uploadChunks_def)
    from uploadChunks_loop_trace_all[OF this] up
    have "t1 = map (\<lambda>c. MinioPutObject (object_key (uuid 0) c) (Data c)) chunks"
      by (simp add: uploadChunks_def)
    then show ?thesis by simp
  qed
  have "\<exists>resp t23. ServeHTTP_write sha256 maxAlloc s sv uuid now filename body =
      Some (Returns (resp, t1 @ t23)) \<and> uploads t23 = []
      \<and> (status resp = StatusCreated \<longrightarrow> (\<exists>models. r = Inr models))"
  proof (cases r)
    case (Inl err)
    have "ServeHTTP_write sha256 maxAlloc s sv uuid now filename body =
        Some (Returns (Response StatusInternalServerError
                         (Text (''failed to upload chunks: '' @ err)), t1))"
      by (simp add: write_after_chunking[OF assms] up Inl del: One_nat_def)
    then show ?thesis
      by (intro exI[of _ "Response StatusInternalServerError
                            (Text (''failed to upload chunks: '' @ err))"] exI[of _ "[]"])
         (simp add: status_defs)
  next
    case (Inr models)
    let ?file = "\<lparr>fID = uuid 0, fName = filename, fSize = tot,
                   fChunkCount = int (length chunks), fCreatedAt = now\<rparr>"
    obtain e t2 where sv: "saveMetadata sv ?file models = (e, t2)"
      by (cases "saveMetadata sv ?file models") auto
    with saveMetadata_uploads[of sv ?file models] have u2: "uploads t2 = []" by simp
    obtain e3 t3 where inv: "invalidateCache sv (uuid 0) = (e3, t3)"
      by (cases "invalidateCache sv (uuid 0)") auto
    with invalidateCache_trace[of sv "uuid 0"] have u3: "uploads t3 = []" by simp
    show ?thesis
    proof (cases e)
      case None
      then show ?thesis
        using u2 u3 Inr
        by (intro exI[of _ "Response StatusCreated
                (Json \<lparr>FileID = uuid 0, FileName = filename, FileSize = tot,
                       ChunkCount = int (length chunks),
                       Message = ''File uploaded successfully''\<rparr>)"] exI[of _ "t2 @ t3"])
           (simp add: write_after_chunking[OF assms] up sv inv del: One_nat_def)
    next
      case (Some err)
      then show ?thesis
        using u2 Inr
        by (intro exI[of _ "Response StatusInternalServerError
                (Text (''failed to save metadata: '' @ err))"] exI[of _ t2])
           (simp add: write_after_chunking[OF assms] up sv del: One_nat_def)
    qed
  qed
  then obtain resp t23 where
    w: "ServeHTTP_write sha256 maxAlloc s sv uuid now filename body =
          Some (Returns (resp, t1 @ t23))"
    and u23: "uploads t23 = []"
    and created: "status resp = StatusCreated \<longrightarrow> (\<exists>models. r = Inr models)"
    by blast
  have a: "uploads (t1 @ t23) = map (\<lambda>c. (object_key (uuid 0) c, Data c)) ?attempted"
    by (simp add: u1 u23)
  have b: "status resp = StatusCreated \<longrightarrow>
      uploads (t1 @ t23) = map (\<lambda>c. (object_key (uuid 0) c, Data c)) chunks"
    using created all u23 by auto
  show ?thesis
    using w a b unfolding object_key_def
    by (intro exI[of _ resp] exI[of _ "t1 @ t23"]) simp
qed

lemma demo_ChunkStream:
  "ChunkStream test_digest maxAlloc64 2 (Reader [1, 2, 3] EOF) =
     Some (Returns (Inr ([\<lparr>Data = [1, 2], OrderIndex = 0, Hash = ''0203'', Size = 2\<rparr>,
                          \<lparr>Data = [3], OrderIndex = 1, Hash = ''0103'', Size = 1\<rparr>], 3)))"
proof -
  have pos: "(0::int) < 2" by simp
  show ?thesis
    using ChunkStream_closed_form[OF pos maxAlloc64_bounds(1), of test_digest "[1, 2, 3]"]
    by (simp add: slices.simps ComputeHash_def EncodeToString_def hextable_def test_digest_def)
qed

lemma demo_upload:
  "uploadChunks empty_services demo_uuid 1 ''abc''
     [\<lparr>Data = [1, 2], OrderIndex = 0, Hash = ''0203'', Size = 2\<rparr>,
      \<lparr>Data = [3], OrderIndex = 1, Hash = ''0103'', Size = 1\<rparr>] =
   (Inr [demo_chunk0, demo_chunk1],
    [MinioPutObject ''chunks/abc/0'' [1, 2], MinioPutObject ''chunks/abc/1'' [3]])"
  by (simp add: uploadChunks_def uploadChunks_loop.simps UploadChunk_def empty_services_def
        demo_uuid_def demo_chunk0_def demo_chunk1_def Let_def)

lemma demo_save:
  "saveMetadata empty_services demo_file [demo_chunk0, demo_chunk1] =
     (None, [SqlInsertFile demo_file, SqlInsertChunk demo_chunk0, SqlInsertChunk demo_chunk1])"
  by (simp add: saveMetadata_def CreateFile_def CreateChunk_def empty_services_def)

lemma demo_invalidate:
  "invalidateCache empty_services ''abc'' = (None, [RedisDel ''file:abc''])"
  by (simp add: invalidateCache_def InvalidateFileMetadata_def empty_services_def)

lemma demo_write:
  "ServeHTTP_write test_digest maxAlloc64 2 empty_services demo_uuid 0 ''a.bin''
       (Reader [1, 2, 3] EOF) =
     Some (Returns
       (Response StatusCreated
          (Json \<lparr>FileID = ''abc'', FileName = ''a.bin'', FileSize = 3, ChunkCount = 2,
                 Message = ''File uploaded successfully''\<rparr>),
        [MinioPutObject ''chunks/abc/0'' [1, 2], MinioPutObject ''chunks/abc/1'' [3],
         SqlInsertFile demo_file, SqlInsertChunk demo_chunk0, SqlInsertChunk demo_chunk1,
         RedisDel ''file:abc'']))"
proof -
  have ne: "''a.bin'' \<noteq> []" by simp
  have id: "demo_uuid 0 = ''abc''" by (simp add: demo_uuid_def)
  have rec: "\<lparr>fID = ''abc'', fName = ''a.bin'', fSize = 3, fChunkCount = 2, fCreatedAt = 0\<rparr> =
      demo_file"
    by (simp add: demo_file_def)
  show ?thesis
    unfolding write_after_chunking[OF ne demo_ChunkStream] id demo_upload
    by (simp add: rec demo_save demo_invalidate)
qed

theorem write_object_keys_witness:
  "(\<exists>resp tw. ServeHTTP_write test_digest maxAlloc64 2 empty_services demo_uuid 0 ''a.bin''
                 (Reader [1, 2, 3] EOF) = Some (Returns (resp, tw))
      \<and> uploads tw = [(''chunks/abc/0'', [1, 2]), (''chunks/abc/1'', [3])])
   \<and> (\<exists>resp tw. ServeHTTP_write test_digest maxAlloc64 2 failing_put_services demo_uuid 0
                 ''a.bin'' (Reader [1, 2, 3] EOF) = Some (Returns (resp, tw))
      \<and> uploads tw = [(''chunks/abc/0'', [1, 2])])"
proof -
  have ne: "''a.bin'' \<noteq> []" by simp
  have id: "demo_uuid 0 = ''abc''" by (simp add: demo_uuid_def)
  have put: "minioPutObject empty_services = (\<lambda>key data. None)"
    by (simp add: empty_services_def)
  have put': "minioPutObject failing_put_services =
      (\<lambda>key data. if key = ''chunks/abc/0'' then Some ''connection reset'' else None)"
    by (simp add: failing_put_services_def)
  from write_object_keys[OF ne demo_ChunkStream, of empty_services demo_uuid 0]
  have 1: "\<exists>resp tw. ServeHTTP_write test_digest maxAlloc64 2 empty_services demo_uuid 0 ''a.bin''
                 (Reader [1, 2, 3] EOF) = Some (Returns (resp, tw))
      \<and> uploads tw = [(''chunks/abc/0'', [1, 2]), (''chunks/abc/1'', [3])]"
    by (simp add: id put) blast
  from write_object_keys[OF ne demo_ChunkStream, of failing_put_services demo_uuid 0]
  have 2: "\<exists>resp tw. ServeHTTP_write test_digest maxAlloc64 2 failing_put_services demo_uuid 0
                 ''a.bin'' (Reader [1, 2, 3] EOF) = Some (Returns (resp, tw))
      \<and> uploads tw = [(''chunks/abc/0'', [1, 2])]"
    by (simp add: id put') blast
  from 1 2 show ?thesis by blast
qed

text \<open>
  Claim C2 as stated names the prefix \<open>segments/\<close>. The write of three bytes with a
  chunk size of 2 uploads under \<open>chunks/abc/0\<close> and \<open>chunks/abc/1\<close>.
\<close>

theorem segments_prefix_counterexample:
  "ServeHTTP_write test_digest maxAlloc64 2 empty_services demo_uuid 0 ''a.bin''
       (Reader [1, 2, 3] EOF) =
     Some (Returns
       (Response StatusCreated
          (Json \<lparr>FileID = ''abc'', FileName = ''a.bin'', FileSize = 3, ChunkCount = 2,
                 Message = ''File uploaded successfully''\<rparr>),
        [MinioPutObject ''chunks/abc/0'' [1, 2], MinioPutObject ''chunks/abc/1'' [3],
         SqlInsertFile demo_file, SqlInsertChunk demo_chunk0, SqlInsertChunk demo_chunk1,
         RedisDel ''file:abc'']))
   \<and> ''chunks/abc/0'' \<noteq> ''segments/abc/0''
   \<and> ''chunks/abc/1'' \<noteq> ''segments/abc/1''"
  using demo_write by simp


section \<open>Round trip\<close>

lemma scan_rows_all: "scan_rows (map Inr rs) acc = Inr (acc @ rs)"
  by (induction rs arbitrary: acc) simp_all

lemma number_chunks_Hash:
  "c \<in> set (number_chunks sha256 i ds) \<Longrightarrow> Hash c = ComputeHash sha256 (Data c)"
  by (induction ds arbitrary: i) auto

lemma write_created:
  assumes "filename \<noteq> []"
    and "ChunkStream sha256 maxAlloc s body = Some (Returns (Inr (chunks, tot)))"
    and "ServeHTTP_write sha256 maxAlloc s sv uuid now filename body =
           Some (Returns (Response StatusCreated created, tw))"
  shows "\<exists>wr. created = Json wr \<and> FileID wr = uuid 0"
    and "inserted_chunks tw =
           map (\<lambda>(j, c). chunk_model (uuid 0) (uuid j) c) (List.enumerate 1 chunks)"
    and "uploads tw = map (\<lambda>c. (object_key (uuid 0) c, Data c)) chunks"
proof -
  obtain r t1 where up: "uploadChunks sv uuid 1 (uuid 0) chunks = (r, t1)"
    by (cases "uploadChunks sv uuid 1 (uuid 0) chunks") auto
  have neq: "StatusInternalServerError \<noteq> StatusCreated" by (simp add: status_defs)
  from assms(3) neq obtain models where r: "r = Inr models"
    by (cases r) (auto simp add: write_after_chunking[OF assms(1,2)] up simp del: One_nat_def)
  let ?file = "\<lparr>fID = uuid 0, fName = filename, fSize = tot,
                 fChunkCount = int (length chunks), fCreatedAt = now\<rparr>"
  obtain e t2 where sv: "saveMetadata sv ?file models = (e, t2)"
    by (cases "saveMetadata sv ?file models") auto
  from assms(3) neq have e: "e = None"
    by (cases e) (auto simp add: write_after_chunking[OF assms(1,2)] up r sv simp del: One_nat_def)
  obtain e3 t3 where inv: "invalidateCache sv (uuid 0) = (e3, t3)"
    by (cases "invalidateCache sv (uuid 0)") auto
  with invalidateCache_trace[of sv "uuid 0"] have t3: "t3 = [RedisDel (''file:'' @ uuid 0)]" by simp
  from assms(3) have tw: "tw = t1 @ t2 @ t3"
    and cr: "created = Json \<lparr>FileID = uuid 0, FileName = filename, FileSize = tot,
                              ChunkCount = int (length chunks),
                              Message = ''File uploaded successfully''\<rparr>"
    by (simp_all add: write_after_chunking[OF assms(1,2)] up r sv e inv del: One_nat_def)
  from saveMetadata_trace[of sv ?file models] sv e
  have t2: "t2 = SqlInsertFile ?file # map SqlInsertChunk models" by simp
  from up r have f: "fst (uploadChunks_loop sv uuid 1 (uuid 0) chunks []) = Inr models"
    by (simp add: uploadChunks_def)
  from uploadChunks_loop_trace_all[OF f] up
  have t1: "t1 = map (\<lambda>c. MinioPutObject (object_key (uuid 0) c) (Data c)) chunks"
    by (simp add: uploadChunks_def)
  from uploadChunks_loop_models[OF f]
  have m: "models = map (\<lambda>(j, c). chunk_model (uuid 0) (uuid j) c) (List.enumerate 1 chunks)"
    by simp
  show "\<exists>wr. created = Json wr \<and> FileID wr = uuid 0" by (simp add: cr)
  have "inserted_chunks tw = models" by (simp add: tw t1 t2 t3)
  then show "inserted_chunks tw =
      map (\<lambda>(j, c). chunk_model (uuid 0) (uuid j) c) (List.enumerate 1 chunks)"
    by (simp only: m)
  show "uploads tw = map (\<lambda>c. (object_key (uuid 0) c, Data c)) chunks"
    by (simp add: tw t1 t2 t3)
qed

text \<open>
  What a read of a stored file finds: the plan is the rows the write inserted, and the
  key and the hash of each row are those of the chunk it was built from.
\<close>

lemma read_plan_of_write:
  assumes s: "0 < s" "s \<le> maxAlloc" and fn: "filename \<noteq> []"
    and w: "ServeHTTP_write sha256 maxAlloc s sv uuid now filename (Reader bs EOF) =
              Some (Returns (Response StatusCreated created, tw))"
    and rows: "rows_hold sv' (uuid 0) tw"
  defines "chunks \<equiv> number_chunks sha256 0 (slices (nat s) bs)"
  shows "getChunkMetadata sv' (uuid 0) = (Inr (inserted_chunks tw), [SqlQueryChunks (uuid 0)])"
    and "length (inserted_chunks tw) = length chunks"
    and "uploads tw = map (\<lambda>c. (object_key (uuid 0) c, Data c)) chunks"
    and "i < length chunks \<Longrightarrow>
           cMinioObjectKey (inserted_chunks tw ! i) = object_key (uuid 0) (chunks ! i)"
    and "i < length chunks \<Longrightarrow>
           cHash (inserted_chunks tw ! i) = ComputeHash sha256 (Data (chunks ! i))"
    and "concat (map Data chunks) = bs"
proof -
  note cs = ChunkStream_closed_form[OF s, of sha256 bs]
  note wc = write_created[OF fn cs w]
  let ?models = "inserted_chunks tw"
  have m: "?models = map (\<lambda>(j, c). chunk_model (uuid 0) (uuid j) c) (List.enumerate 1 chunks)"
    unfolding chunks_def by (rule wc(2))
  show len: "length ?models = length chunks" by (simp add: m)
  show "uploads tw = map (\<lambda>c. (object_key (uuid 0) c, Data c)) chunks"
    unfolding chunks_def by (rule wc(3))
  have "map cOrderIndex ?models = map OrderIndex chunks"
    by (rule nth_equalityI) (simp_all add: m chunk_model_def nth_enumerate_eq)
  then have "sorted (map cOrderIndex ?models)"
    by (simp add: chunks_def sorted_number_chunks)
  then have "sort_key cOrderIndex ?models = ?models" by (rule sort_key_id_if_sorted)
  with rows have "sqlQueryChunks sv' (uuid 0) = Rows (map Inr ?models) None"
    by (simp add: rows_hold_def)
  then show "getChunkMetadata sv' (uuid 0) = (Inr ?models, [SqlQueryChunks (uuid 0)])"
    by (simp add: getChunkMetadata_def GetChunks_def scan_rows_all)
  show "cMinioObjectKey (?models ! i) = object_key (uuid 0) (chunks ! i)" if "i < length chunks"
    using that by (simp add: m chunk_model_def nth_enumerate_eq)
  show "cHash (?models ! i) = ComputeHash sha256 (Data (chunks ! i))" if i: "i < length chunks"
  proof -
    from i have "chunks ! i \<in> set chunks" by (rule nth_mem)
    then have "Hash (chunks ! i) = ComputeHash sha256 (Data (chunks ! i))"
      unfolding chunks_def by (rule number_chunks_Hash)
    then show ?thesis using i by (simp add: m chunk_model_def nth_enumerate_eq)
  qed
  show "concat (map Data chunks) = bs"
    using s(1) by (simp add: chunks_def concat_slices)
qed

lemma uploaded_member:
  assumes "uploads tw = map (\<lambda>c. (object_key fileID c, Data c)) chunks" and "i < length chunks"
  shows "(object_key fileID (chunks ! i), Data (chunks ! i)) \<in> set (uploads tw)"
proof -
  from assms(2) have "chunks ! i \<in> set chunks" by (rule nth_mem)
  then show ?thesis
    unfolding assms(1) by (simp only: set_map) (rule imageI)
qed

lemma write_then_read:
  assumes s: "0 < s" "s \<le> maxAlloc" and fn: "filename \<noteq> []" and id: "uuid 0 \<noteq> []"
    and w: "ServeHTTP_write sha256 maxAlloc s sv uuid now filename (Reader bs EOF) =
              Some (Returns (Response StatusCreated created, tw))"
    and rows: "rows_hold sv' (uuid 0) tw"
    and blobs: "blobs_hold sv' tw"
    and md: "fst (getFileMetadata sv' (uuid 0)) = Inr (Some file)"
    and sc: "is_schedule sched (length (inserted_chunks tw))"
  shows "fst (ServeHTTP_read sha256 sv' sched (uuid 0)) = Response StatusOK (Bytes bs)"
proof -
  let ?chunks = "number_chunks sha256 0 (slices (nat s) bs)"
  let ?models = "inserted_chunks tw"
  note p = read_plan_of_write[OF s fn w rows]
  obtain t1 where meta: "getFileMetadata sv' (uuid 0) = (Inr (Some file), t1)"
    using md by (cases "getFileMetadata sv' (uuid 0)") auto
  have slot: "unit_slot sha256 sv' (?models ! i) = Some (Data (?chunks ! i))"
    if i: "i < length ?chunks" for i
  proof -
    from uploaded_member[OF p(3) i] blobs
    have get: "minioGetObject sv' (object_key (uuid 0) (?chunks ! i)) = Object (Data (?chunks ! i))"
      by (auto simp add: blobs_hold_def list_all_iff)
    show ?thesis
      by (simp add: unit_slot_Some_iff DownloadChunk_def VerifyChunkHash_def
            p(4)[OF i] p(5)[OF i] get)
  qed
  then have slots: "map (unit_slot sha256 sv') ?models = map (\<lambda>c. Some (Data c)) ?chunks"
    using p(2) by (intro nth_equalityI) simp_all
  from slot p(2) have ok: "\<forall>i < length ?models. unit_slot sha256 sv' (?models ! i) \<noteq> None"
    by simp
  from fetchChunksParallel_result[OF sc, of sha256 sv'] ok
  have "fst (fetchChunksParallel sha256 sv' sched ?models) =
      Inr (map (unit_slot sha256 sv') ?models)"
    by simp
  then have "fst (ServeHTTP_read sha256 sv' sched (uuid 0)) =
      Response StatusOK (Bytes (reassembleFile (map (\<lambda>c. Some (Data c)) ?chunks)))"
    by (cases "fetchChunksParallel sha256 sv' sched ?models")
       (simp add: read_after_plan[OF id meta p(1)] slots)
  moreover have "reassembleFile (map (\<lambda>c. Some (Data c)) ?chunks) = concat (map Data ?chunks)"
    by (simp add: reassembleFile_slots slot_bytes_def comp_def)
  moreover have "concat (map Data ?chunks) = bs" by (rule p(6))
  ultimately show ?thesis by (simp only:)
qed

lemma read_ok_cases:
  assumes "fst (ServeHTTP_read sha256 sv sched fileID) = Response StatusOK (Bytes b)"
  shows "\<exists>file t1 chunks t2 slots.
           fileID \<noteq> [] \<and> getFileMetadata sv fileID = (Inr (Some file), t1)
           \<and> getChunkMetadata sv fileID = (Inr chunks, t2)
           \<and> fst (fetchChunksParallel sha256 sv sched chunks) = Inr slots
           \<and> b = reassembleFile slots"
  using assms
  by (auto simp add: ServeHTTP_read_def status_defs
        split: if_splits prod.splits sum.splits option.splits)

lemma successful_read_of_write:
  assumes s: "0 < s" "s \<le> maxAlloc" and fn: "filename \<noteq> []"
    and w: "ServeHTTP_write sha256 maxAlloc s sv uuid now filename (Reader bs EOF) =
              Some (Returns (Response StatusCreated created, tw))"
    and rows: "rows_hold sv' (uuid 0) tw"
    and nc: "collision_free sha256 sv' tw"
    and sc: "is_schedule sched (length (inserted_chunks tw))"
    and ok: "fst (ServeHTTP_read sha256 sv' sched (uuid 0)) = Response StatusOK (Bytes b)"
  shows "b = bs"
proof -
  let ?chunks = "number_chunks sha256 0 (slices (nat s) bs)"
  let ?models = "inserted_chunks tw"
  note p = read_plan_of_write[OF s fn w rows]
  from read_ok_cases[OF ok] p(1)
  have ex: "\<exists>slots. fst (fetchChunksParallel sha256 sv' sched ?models) = Inr slots
      \<and> b = reassembleFile slots"
    by auto
  from ex fetchChunksParallel_result[OF sc, of sha256 sv']
  have all: "\<forall>i < length ?models. unit_slot sha256 sv' (?models ! i) \<noteq> None"
    and res: "fst (fetchChunksParallel sha256 sv' sched ?models) =
      Inr (map (unit_slot sha256 sv') ?models)"
    by (auto split: if_splits)
  have slot: "unit_slot sha256 sv' (?models ! i) = Some (Data (?chunks ! i))"
    if i: "i < length ?chunks" for i
  proof -
    from all i p(2) obtain d where d: "unit_slot sha256 sv' (?models ! i) = Some d" by auto
    then have get: "minioGetObject sv' (object_key (uuid 0) (?chunks ! i)) = Object d"
      and h: "ComputeHash sha256 d = ComputeHash sha256 (Data (?chunks ! i))"
      by (auto simp add: unit_slot_Some_iff DownloadChunk_def VerifyChunkHash_def
            p(4)[OF i] p(5)[OF i] split: minio_object.splits)
    from uploaded_member[OF p(3) i] nc get h have "d = Data (?chunks ! i)"
      by (auto simp add: collision_free_def list_all_iff)
    with d show ?thesis by simp
  qed
  then have "map (unit_slot sha256 sv') ?models = map (\<lambda>c. Some (Data c)) ?chunks"
    using p(2) by (intro nth_equalityI) simp_all
  with res ex have "b = reassembleFile (map (\<lambda>c. Some (Data c)) ?chunks)" by simp
  moreover have "reassembleFile (map (\<lambda>c. Some (Data c)) ?chunks) = concat (map Data ?chunks)"
    by (simp add: reassembleFile_slots slot_bytes_def comp_def)
  moreover have "concat (map Data ?chunks) = bs" by (rule p(6))
  ultimately show ?thesis by (simp only:)
qed


text \<open>
  Claim C1, as amended. For every byte sequence \<open>bs\<close>, the empty one included, and every
  positive chunk size within the allocation limit, \<open>ChunkStream\<close> returns chunks, and
  \<open>ReassembleChunks\<close> applied to their data, taken in the order of their order index,
  gives back \<open>bs\<close>. Hence, for a file that a write stored (the write answered 201) and a
  read for which the chunk query returns the rows that write inserted: every successful
  read returns exactly the bytes written, unless an object returned for one of the write's
  keys differs from the bytes uploaded and has their digest; and the read does succeed,
  with the bytes written, when the keys return the bytes uploaded and the file record
  resolves. This holds under every completion order of the fetches.
\<close>

theorem roundtrip:
  assumes "0 < s" and "s \<le> maxAlloc"
  shows "(\<exists>chunks tot. ChunkStream sha256 maxAlloc s (Reader bs EOF) =
              Some (Returns (Inr (chunks, tot)))
            \<and> ReassembleChunks (map Data (sort_key OrderIndex chunks)) = bs)
       \<and> (filename \<noteq> []
            \<and> ServeHTTP_write sha256 maxAlloc s sv uuid now filename (Reader bs EOF) =
                Some (Returns (Response StatusCreated (Json wr), tw))
            \<and> rows_hold sv' (FileID wr) tw
            \<and> is_schedule sched (length (inserted_chunks tw))
          \<longrightarrow> (collision_free sha256 sv' tw
                 \<and> fst (ServeHTTP_read sha256 sv' sched (FileID wr)) =
                     Response StatusOK (Bytes b)
               \<longrightarrow> b = bs)
              \<and> (blobs_hold sv' tw \<and> FileID wr \<noteq> []
                 \<and> fst (getFileMetadata sv' (FileID wr)) = Inr (Some file)
               \<longrightarrow> fst (ServeHTTP_read sha256 sv' sched (FileID wr)) =
                     Response StatusOK (Bytes bs)))"
proof (intro conjI impI)
  show "\<exists>chunks tot. ChunkStream sha256 maxAlloc s (Reader bs EOF) =
        Some (Returns (Inr (chunks, tot)))
      \<and> ReassembleChunks (map Data (sort_key OrderIndex chunks)) = bs"
    by (rule roundtrip_split_reassemble[OF assms])
next
  assume h: "filename \<noteq> []
      \<and> ServeHTTP_write sha256 maxAlloc s sv uuid now filename (Reader bs EOF) =
          Some (Returns (Response StatusCreated (Json wr), tw))
      \<and> rows_hold sv' (FileID wr) tw
      \<and> is_schedule sched (length (inserted_chunks tw))"
  then have fn: "filename \<noteq> []"
    and w: "ServeHTTP_write sha256 maxAlloc s sv uuid now filename (Reader bs EOF) =
          Some (Returns (Response StatusCreated (Json wr), tw))"
    and sc: "is_schedule sched (length (inserted_chunks tw))"
    by simp_all
  from write_created(1)[OF fn ChunkStream_closed_form[OF assms, of sha256 bs] w]
  have id: "FileID wr = uuid 0" by simp
  from h have rows: "rows_hold sv' (uuid 0) tw" by (simp add: id)
  {
    assume "collision_free sha256 sv' tw
      \<and> fst (ServeHTTP_read sha256 sv' sched (FileID wr)) = Response StatusOK (Bytes b)"
    then have nc: "collision_free sha256 sv' tw"
      and ok: "fst (ServeHTTP_read sha256 sv' sched (uuid 0)) = Response StatusOK (Bytes b)"
      by (simp_all add: id)
    show "b = bs"
      by (rule successful_read_of_write[OF assms fn w rows nc sc ok])
  next
    assume "blobs_hold sv' tw \<and> FileID wr \<noteq> []
      \<and> fst (getFileMetadata sv' (FileID wr)) = Inr (Some file)"
    then have blobs: "blobs_hold sv' tw" and ne: "uuid 0 \<noteq> []"
      and md: "fst (getFileMetadata sv' (uuid 0)) = Inr (Some file)"
      by (simp_all add: id)
    show "fst (ServeHTTP_read sha256 sv' sched (FileID wr)) = Response StatusOK (Bytes bs)"
      unfolding id by (rule write_then_read[OF assms fn ne w rows blobs md sc])
  }
qed

lemma demo_stores:
  "rows_hold (demo_services [demo_chunk0, demo_chunk1]) ''abc''
     [MinioPutObject ''chunks/abc/0'' [1, 2], MinioPutObject ''chunks/abc/1'' [3],
      SqlInsertFile demo_file, SqlInsertChunk demo_chunk0, SqlInsertChunk demo_chunk1,
      RedisDel ''file:abc'']"
  "blobs_hold (demo_services rows)
     [MinioPutObject ''chunks/abc/0'' [1, 2], MinioPutObject ''chunks/abc/1'' [3],
      SqlInsertFile demo_file, SqlInsertChunk demo_chunk0, SqlInsertChunk demo_chunk1,
      RedisDel ''file:abc'']"
  "collision_free test_digest (demo_services rows)
     [MinioPutObject ''chunks/abc/0'' [1, 2], MinioPutObject ''chunks/abc/1'' [3],
      SqlInsertFile demo_file, SqlInsertChunk demo_chunk0, SqlInsertChunk demo_chunk1,
      RedisDel ''file:abc'']"
  by (simp_all add: rows_hold_def blobs_hold_def collision_free_def double_defs)

theorem roundtrip_witness:
  "(\<exists>chunks tot. ChunkStream test_digest maxAlloc64 2 (Reader [1, 2, 3] EOF) =
        Some (Returns (Inr (chunks, tot)))
      \<and> ReassembleChunks (map Data (sort_key OrderIndex chunks)) = [1, 2, 3])
   \<and> collision_free test_digest (demo_services [demo_chunk0, demo_chunk1])
       [MinioPutObject ''chunks/abc/0'' [1, 2], MinioPutObject ''chunks/abc/1'' [3],
        SqlInsertFile demo_file, SqlInsertChunk demo_chunk0, SqlInsertChunk demo_chunk1,
        RedisDel ''file:abc'']
   \<and> fst (ServeHTTP_read test_digest (demo_services [demo_chunk0, demo_chunk1]) [1, 0] ''abc'') =
       Response StatusOK (Bytes [1, 2, 3])"
proof -
  let ?tw = "[MinioPutObject ''chunks/abc/0'' [1, 2], MinioPutObject ''chunks/abc/1'' [3],
              SqlInsertFile demo_file, SqlInsertChunk demo_chunk0, SqlInsertChunk demo_chunk1,
              RedisDel ''file:abc'']"
  let ?wr = "\<lparr>FileID = ''abc'', FileName = ''a.bin'', FileSize = 3, ChunkCount = 2,
              Message = ''File uploaded successfully''\<rparr>"
  let ?sv = "demo_services [demo_chunk0, demo_chunk1]"
  have id: "FileID ?wr = ''abc''" by simp
  have ins: "inserted_chunks ?tw = [demo_chunk0, demo_chunk1]" by simp
  have h1: "''a.bin'' \<noteq> []" and h2: "FileID ?wr \<noteq> []" by simp_all
  have h3: "ServeHTTP_write test_digest maxAlloc64 2 empty_services demo_uuid 0 ''a.bin''
      (Reader [1, 2, 3] EOF) = Some (Returns (Response StatusCreated (Json ?wr), ?tw))"
    by (rule demo_write)
  have h4: "rows_hold ?sv (FileID ?wr) ?tw" unfolding id by (rule demo_stores(1))
  have h5: "blobs_hold ?sv ?tw" by (rule demo_stores(2))
  have h6: "fst (getFileMetadata ?sv (FileID ?wr)) = Inr (Some demo_file)"
    by (simp add: demo_metadata(1))
  have h7: "is_schedule [1, 0] (length (inserted_chunks ?tw))"
    unfolding ins by (rule demo_schedule(1))
  have pos: "(0::int) < 2" by simp
  note r = roundtrip[OF pos maxAlloc64_bounds(1), of test_digest "[1, 2, 3]" "''a.bin''"
      empty_services demo_uuid 0 ?wr ?tw ?sv "[1, 0]" "[1, 2, 3]" demo_file]
  from r h1 h2 h3 h4 h5 h6 h7
  have "fst (ServeHTTP_read test_digest ?sv [1, 0] (FileID ?wr)) = Response StatusOK (Bytes [1, 2, 3])"
    by blast
  with r demo_stores(3)[of "[demo_chunk0, demo_chunk1]"] show ?thesis by simp
qed

text \<open>
  Claim C1 as stated fails in both halves. A chunk size of \<open>2 ^ 62\<close> is positive, and
  \<open>ChunkStream\<close> panics. And the write of \<open>1, 2, 3\<close> as file \<open>abc\<close> answers 201, after
  which a read against stores that hold the file record and both objects, but only the
  first chunk row, answers 200 with \<open>1, 2\<close>.
\<close>

theorem roundtrip_counterexample:
  "ChunkStream test_digest maxAlloc64 (2 ^ 62) (Reader [1, 2, 3] EOF) =
     Some (Panics ''runtime error: makeslice: len out of range'')
   \<and> ServeHTTP_write test_digest maxAlloc64 2 empty_services demo_uuid 0 ''a.bin''
       (Reader [1, 2, 3] EOF) =
     Some (Returns
       (Response StatusCreated
          (Json \<lparr>FileID = ''abc'', FileName = ''a.bin'', FileSize = 3, ChunkCount = 2,
                 Message = ''File uploaded successfully''\<rparr>),
        [MinioPutObject ''chunks/abc/0'' [1, 2], MinioPutObject ''chunks/abc/1'' [3],
         SqlInsertFile demo_file, SqlInsertChunk demo_chunk0, SqlInsertChunk demo_chunk1,
         RedisDel ''file:abc'']))
   \<and> sqlQueryRowFile (demo_services [demo_chunk0]) ''abc'' = Row demo_file
   \<and> blobs_hold (demo_services [demo_chunk0])
       [MinioPutObject ''chunks/abc/0'' [1, 2], MinioPutObject ''chunks/abc/1'' [3],
        SqlInsertFile demo_file, SqlInsertChunk demo_chunk0, SqlInsertChunk demo_chunk1,
        RedisDel ''file:abc'']
   \<and> fst (ServeHTTP_read test_digest (demo_services [demo_chunk0]) [0] ''abc'') =
       Response StatusOK (Bytes [1, 2])"
proof -
  have 1: "ChunkStream test_digest maxAlloc64 (2 ^ 62) (Reader [1, 2, 3] EOF) =
      Some (Panics ''runtime error: makeslice: len out of range'')"
    using maxAlloc64_bounds(4) by (simp add: ChunkStream_def loop_panics)
  have 2: "sqlQueryRowFile (demo_services [demo_chunk0]) ''abc'' = Row demo_file"
    by (simp add: double_defs)
  have 3: "fst (ServeHTTP_read test_digest (demo_services [demo_chunk0]) [0] ''abc'') =
      Response StatusOK (Bytes [1, 2])"
    by (simp add: read_defs double_defs)
  from 1 2 3 demo_write demo_stores(2)[of "[demo_chunk0]"] show ?thesis by simp
qed


end
